theory Spec2Isabelle
  imports Complex_Main
begin

section \<open>Domain model\<close>

text \<open>
  The enumerations of the coordinator. The module \<^verbatim>\<open>models\<close> that declares them and the
  pydantic models is not among the sources; constructors and fields are the ones the
  scheduler, the repository and the services read and write.
\<close>

datatype TaskType = INFERENCE | EMBEDDINGS | INDEX | TOKENIZE | PREPROCESS

datatype JobStatus = QUEUED | RUNNING | COMPLETED | FAILED | CANCELLED

datatype NodeStatus = UNKNOWN | ONLINE | OFFLINE

datatype RolePreference = AUTO | PREFER_INFERENCE | PREFER_EMBEDDINGS | PREFER_PREPROCESS

text \<open>
  Exceptions of the Python code, as values. \<open>KeyError\<close> carries the missing id.
\<close>

datatype exn = KeyError string | ValueError | OverflowError | QueueEmpty | QueueFull

text \<open>
  Percentages and sizes are Python floats, each finite float a real. The code modelled
  here only stores them and compares them with integer caps, which Python does exactly;
  no arithmetic is done on them. Timestamps are instants in microseconds since the epoch
  (the resolution of \<^verbatim>\<open>datetime\<close>), read in UTC.
\<close>

record NodeIdentity =
  node_id :: string
  display_name :: string
  ip :: string
  port :: int

record NodeCapabilities =
  task_types :: "TaskType list"
  labels :: "string list"
  has_gpu :: bool
  cpu_cores :: "int option"
  cpu_threads :: "int option"
  ram_total_gb :: "real option"
  gpu_name :: "string option"
  vram_total_gb :: "real option"
  os :: "string option"
  arch :: "string option"

record NodeMetrics =
  cpu_percent :: real
  ram_used_gb :: real
  ram_percent :: real
  gpu_percent :: "real option"
  vram_used_gb :: "real option"
  running_jobs :: int
  heartbeat_ts :: int
  extra :: "(string \<times> string) list"

record NodePolicy =
  enabled :: bool
  cpu_cap_percent :: int
  gpu_cap_percent :: "int option"
  ram_cap_percent :: int
  task_allowlist :: "TaskType list"
  role_preference :: RolePreference

record Node =
  identity :: NodeIdentity
  capabilities :: NodeCapabilities
  metrics :: NodeMetrics
  policy :: NodePolicy
  status :: NodeStatus
  last_seen :: int
  created_at :: int
  updated_at :: int

section \<open>Scheduler core\<close>

definition task_requires_gpu :: "TaskType \<Rightarrow> bool" where
  "task_requires_gpu task_type = (task_type = INFERENCE)"

text \<open>
  \<^verbatim>\<open>gpu_cap = policy.gpu_cap_percent if policy.gpu_cap_percent is not None else 100\<close>.
\<close>

definition gpu_cap_of :: "NodePolicy \<Rightarrow> int" where
  "gpu_cap_of p = (case gpu_cap_percent p of Some c \<Rightarrow> c | None \<Rightarrow> 100)"

text \<open>
  \<^verbatim>\<open>evaluate_node_eligibility\<close>: the list \<open>reasons\<close> grows by one \<^verbatim>\<open>append\<close> per failed
  check, in the order of the source.
\<close>

definition evaluate_node_eligibility :: "Node \<Rightarrow> TaskType \<Rightarrow> bool \<times> string list" where
  "evaluate_node_eligibility node task_type =
    (let reasons = [];
         reasons = (if \<not> enabled (policy node)
                    then reasons @ [''policy_disabled''] else reasons);
         reasons = (if status node \<noteq> ONLINE
                    then reasons @ [''node_not_online''] else reasons);
         reasons = (if task_type \<notin> set (task_allowlist (policy node))
                    then reasons @ [''task_not_allowed''] else reasons);
         reasons = (if cpu_percent (metrics node) > real_of_int (cpu_cap_percent (policy node))
                    then reasons @ [''cpu_over_cap''] else reasons);
         reasons = (if ram_percent (metrics node) > real_of_int (ram_cap_percent (policy node))
                    then reasons @ [''ram_over_cap''] else reasons);
         reasons =
           (if task_requires_gpu task_type then
              (if \<not> has_gpu (capabilities node) then reasons @ [''gpu_required'']
               else (case gpu_percent (metrics node) of
                       None \<Rightarrow> reasons
                     | Some g \<Rightarrow>
                         (if g > real_of_int (gpu_cap_of (policy node))
                          then reasons @ [''gpu_over_cap''] else reasons)))
            else reasons)
     in (length reasons = 0, reasons))"

definition is_node_eligible :: "Node \<Rightarrow> TaskType \<Rightarrow> bool" where
  "is_node_eligible node task_type = fst (evaluate_node_eligibility node task_type)"

section \<open>Persistent store: jobs\<close>

text \<open>
  A row of the table \<^verbatim>\<open>jobs\<close> (\<^verbatim>\<open>JobRecord\<close>). The source's columns \<^verbatim>\<open>id\<close>, \<^verbatim>\<open>type\<close>,
  \<^verbatim>\<open>status\<close>, \<^verbatim>\<open>created_at\<close> and \<^verbatim>\<open>updated_at\<close> carry the prefix \<open>job_\<close> here, since
  the node records use the same names. The pydantic model \<^verbatim>\<open>Job\<close> has the same fields,
  so \<^verbatim>\<open>_to_job\<close> copies a row as it is (its \<^verbatim>\<open>_as_utc\<close> keeps the instant).
\<close>

record JobRecord =
  job_id :: string
  job_type :: TaskType
  job_status :: JobStatus
  payload_ref :: "string option"
  assigned_node_id :: "string option"
  attempts :: int
  job_created_at :: int
  job_updated_at :: int
  started_at :: "int option"
  completed_at :: "int option"
  error :: "string option"

type_synonym Job = JobRecord

definition to_job :: "JobRecord \<Rightarrow> Job" where
  "to_job row = row"

text \<open>\<^verbatim>\<open>_ALLOWED_JOB_TRANSITIONS\<close>.\<close>

fun ALLOWED_JOB_TRANSITIONS :: "JobStatus \<Rightarrow> JobStatus set" where
  "ALLOWED_JOB_TRANSITIONS QUEUED = {RUNNING}"
| "ALLOWED_JOB_TRANSITIONS RUNNING = {COMPLETED, FAILED}"
| "ALLOWED_JOB_TRANSITIONS COMPLETED = {}"
| "ALLOWED_JOB_TRANSITIONS FAILED = {}"
| "ALLOWED_JOB_TRANSITIONS CANCELLED = {}"

text \<open>
  The table is the list of its rows. \<^verbatim>\<open>session.get(JobRecord, job_id)\<close> finds the row with
  that primary key; a row changed through the session is written back at the flush.
\<close>

definition get_job_row :: "JobRecord list \<Rightarrow> string \<Rightarrow> JobRecord option" where
  "get_job_row table jid = find (\<lambda>r. job_id r = jid) table"

definition flush_job_row :: "JobRecord list \<Rightarrow> JobRecord \<Rightarrow> JobRecord list" where
  "flush_job_row table row = map (\<lambda>r. if job_id r = job_id row then row else r) table"

text \<open>Python's \<^verbatim>\<open>a or b\<close> on optional strings: \<^verbatim>\<open>None\<close> and the empty string are falsy.\<close>

definition str_or :: "string option \<Rightarrow> string option \<Rightarrow> string option" where
  "str_or a b = (case a of None \<Rightarrow> b | Some s \<Rightarrow> (if s = [] then b else Some s))"

text \<open>
  \<^verbatim>\<open>transition_job_status\<close>, with the clock reading \<open>now\<close> as an argument. The result is
  what the call returns or raises, and the table afterwards: a raise leaves the
  transaction without a write.
\<close>

definition transition_job_status ::
    "JobRecord list \<Rightarrow> int \<Rightarrow> string \<Rightarrow> JobStatus \<Rightarrow> string option
      \<Rightarrow> (exn + Job) \<times> JobRecord list" where
  "transition_job_status table now jid new_status err =
    (case get_job_row table jid of
       None \<Rightarrow> (Inl (KeyError jid), table)
     | Some row \<Rightarrow>
         (let current_status = job_status row in
          if current_status = new_status then
            (if err \<noteq> None then
               (let row = row\<lparr>error := err, job_updated_at := now\<rparr>
                in (Inr (to_job row), flush_job_row table row))
             else (Inr (to_job row), table))
          else if new_status \<notin> ALLOWED_JOB_TRANSITIONS current_status then
            (Inl ValueError, table)
          else
            (let row = row\<lparr>job_status := new_status, job_updated_at := now\<rparr>;
                 row =
                   (if new_status = RUNNING then
                      row\<lparr>started_at := (case started_at row of Some t \<Rightarrow> Some t
                                                                | None \<Rightarrow> Some now),
                          attempts := (if attempts row = 0 then 0 else attempts row) + 1,
                          error := None\<rparr>
                    else if new_status = COMPLETED then
                      row\<lparr>completed_at := Some now, error := None\<rparr>
                    else if new_status = FAILED then
                      row\<lparr>completed_at := Some now,
                          error := str_or err (str_or (error row) (Some ''Job failed''))\<rparr>
                    else row)
             in (Inr (to_job row), flush_job_row table row))))"

text \<open>
  The route \<^verbatim>\<open>POST /v1/jobs/{job_id}/status\<close>: \<^verbatim>\<open>KeyError\<close> becomes 404, \<^verbatim>\<open>ValueError\<close>
  becomes 409, a returned job is sent with 200.
\<close>

datatype 'a http = Response nat 'a | HTTPException nat

definition transition_job_status_route ::
    "JobRecord list \<Rightarrow> int \<Rightarrow> string \<Rightarrow> JobStatus \<Rightarrow> string option
      \<Rightarrow> Job http \<times> JobRecord list" where
  "transition_job_status_route table now jid new_status err =
    (case transition_job_status table now jid new_status err of
       (Inr job, table') \<Rightarrow> (Response 200 job, table')
     | (Inl (KeyError k), table') \<Rightarrow> (HTTPException 404, table')
     | (Inl ValueError, table') \<Rightarrow> (HTTPException 409, table')
     | (Inl e, table') \<Rightarrow> (HTTPException 500, table'))"

text \<open>
  A sequence of status updates for one job, each an independent call with its own clock
  reading; a call that raises changes nothing and the next one goes on.
\<close>

fun run_transitions ::
    "JobRecord list \<Rightarrow> string \<Rightarrow> (int \<times> JobStatus \<times> string option) list \<Rightarrow> JobRecord list" where
  "run_transitions table jid [] = table"
| "run_transitions table jid ((now, new_status, err) # calls) =
     run_transitions (snd (transition_job_status table now jid new_status err)) jid calls"

text \<open>A job as \<^verbatim>\<open>POST /v1/jobs\<close> creates it, for the examples.\<close>

definition example_job :: JobRecord where
  "example_job =
    \<lparr>job_id = ''job-1'', job_type = EMBEDDINGS, job_status = QUEUED,
     payload_ref = Some ''demo://payload/1'', assigned_node_id = None, attempts = 0,
     job_created_at = 100, job_updated_at = 100, started_at = None, completed_at = None,
     error = None\<rparr>"

section \<open>Persistent store: nodes\<close>

text \<open>
  A row of the table \<^verbatim>\<open>nodes\<close> (\<^verbatim>\<open>NodeRecord\<close>); the columns that share a name with a
  field of \<open>Node\<close> carry the prefix \<open>r_\<close>. The three JSON columns hold the encoded
  capabilities, metrics and policy; the row keeps the value itself, as
  \<^verbatim>\<open>model_validate(json.loads(_encode_json(v.model_dump())))\<close> gives \<open>v\<close> back.
\<close>

record NodeRecord =
  r_node_id :: string
  r_display_name :: string
  r_ip :: string
  r_port :: int
  r_status :: NodeStatus
  capabilities_json :: NodeCapabilities
  metrics_json :: NodeMetrics
  policy_json :: NodePolicy
  r_last_seen :: int
  r_created_at :: int
  r_updated_at :: int

text \<open>
  What \<^verbatim>\<open>NodeCapabilities()\<close>, \<^verbatim>\<open>NodeMetrics()\<close> and \<^verbatim>\<open>NodePolicy()\<close> construct: the models'
  defaults are declared outside the sources, so the repository takes them as given.
\<close>

record ModelDefaults =
  default_capabilities :: NodeCapabilities
  default_metrics :: NodeMetrics
  default_policy :: NodePolicy

definition get_node_row :: "NodeRecord list \<Rightarrow> string \<Rightarrow> NodeRecord option" where
  "get_node_row table nid = find (\<lambda>r. r_node_id r = nid) table"

definition flush_node_row :: "NodeRecord list \<Rightarrow> NodeRecord \<Rightarrow> NodeRecord list" where
  "flush_node_row table row = map (\<lambda>r. if r_node_id r = r_node_id row then row else r) table"

text \<open>\<^verbatim>\<open>_ensure_node\<close>: the row with that id, inserted first when there is none.\<close>

definition ensure_node ::
    "ModelDefaults \<Rightarrow> NodeRecord list \<Rightarrow> int \<Rightarrow> string \<Rightarrow> NodeRecord \<times> NodeRecord list" where
  "ensure_node self table now nid =
    (case get_node_row table nid of
       Some node \<Rightarrow> (node, table)
     | None \<Rightarrow>
         (let node = \<lparr>r_node_id = nid, r_display_name = nid, r_ip = ''0.0.0.0'', r_port = 0,
                      r_status = UNKNOWN,
                      capabilities_json = default_capabilities self,
                      metrics_json = default_metrics self,
                      policy_json = default_policy self,
                      r_last_seen = now, r_created_at = now, r_updated_at = now\<rparr>
          in (node, table @ [node])))"

definition to_node :: "NodeRecord \<Rightarrow> Node" where
  "to_node row =
    \<lparr>identity = \<lparr>node_id = r_node_id row, display_name = r_display_name row,
                  ip = r_ip row, port = r_port row\<rparr>,
     capabilities = capabilities_json row,
     metrics = metrics_json row,
     policy = policy_json row,
     status = r_status row,
     last_seen = r_last_seen row,
     created_at = r_created_at row,
     updated_at = r_updated_at row\<rparr>"

definition update_node_metrics ::
    "ModelDefaults \<Rightarrow> NodeRecord list \<Rightarrow> int \<Rightarrow> string \<Rightarrow> NodeMetrics
      \<Rightarrow> Node \<times> NodeRecord list" where
  "update_node_metrics self table now nid payload =
    (let (node, table) = ensure_node self table now nid;
         node = node\<lparr>metrics_json := payload,
                     r_status := ONLINE,
                     r_last_seen := heartbeat_ts payload,
                     r_updated_at := now\<rparr>
     in (to_node node, flush_node_row table node))"

definition update_node_policy ::
    "ModelDefaults \<Rightarrow> NodeRecord list \<Rightarrow> int \<Rightarrow> string \<Rightarrow> NodePolicy
      \<Rightarrow> Node \<times> NodeRecord list" where
  "update_node_policy self table now nid payload =
    (let (node, table) = ensure_node self table now nid;
         node = node\<lparr>policy_json := payload, r_updated_at := now\<rparr>
     in (to_node node, flush_node_row table node))"

definition get_node :: "NodeRecord list \<Rightarrow> string \<Rightarrow> Node option" where
  "get_node table nid =
    (case get_node_row table nid of None \<Rightarrow> None | Some row \<Rightarrow> Some (to_node row))"

text \<open>
  The route \<^verbatim>\<open>PUT /v1/nodes/{node_id}/policy\<close> returns what \<^verbatim>\<open>update_node_policy\<close>
  returns, with the default status 200; its body has no other statement.
\<close>

definition put_node_policy ::
    "ModelDefaults \<Rightarrow> NodeRecord list \<Rightarrow> int \<Rightarrow> string \<Rightarrow> NodePolicy
      \<Rightarrow> Node http \<times> NodeRecord list" where
  "put_node_policy self table now nid pol =
    (let (node, table) = update_node_policy self table now nid pol
     in (Response 200 node, table))"

text \<open>
  The route \<^verbatim>\<open>GET /v1/nodes/{node_id}\<close> without the metrics history, the sibling read.
\<close>

definition get_node_detail :: "NodeRecord list \<Rightarrow> string \<Rightarrow> Node http" where
  "get_node_detail table nid =
    (case get_node table nid of None \<Rightarrow> HTTPException 404 | Some node \<Rightarrow> Response 200 node)"

subsection \<open>Staleness sweep\<close>

text \<open>
  \<^verbatim>\<open>timedelta(seconds=n)\<close> and \<^verbatim>\<open>datetime - timedelta\<close>, in microseconds. Both raise
  \<^verbatim>\<open>OverflowError\<close> outside their ranges: at most 999999999 days either way for a
  \<^verbatim>\<open>timedelta\<close>, the years 1 to 9999 for a \<^verbatim>\<open>datetime\<close>.
\<close>

definition datetime_min :: int where
  "datetime_min = - 62135596800000000"

definition datetime_max :: int where
  "datetime_max = 253402300799999999"

definition timedelta_seconds :: "int \<Rightarrow> exn + int" where
  "timedelta_seconds seconds =
    (let days = seconds div 86400
     in if days < - 999999999 \<or> 999999999 < days then Inl OverflowError
        else Inr (seconds * 1000000))"

definition datetime_sub :: "int \<Rightarrow> int \<Rightarrow> exn + int" where
  "datetime_sub t delta =
    (let r = t - delta
     in if r < datetime_min \<or> datetime_max < r then Inl OverflowError else Inr r)"

text \<open>
  The loop of \<^verbatim>\<open>mark_offline_if_stale_nodes\<close> over the selected rows: a stale row
  that is not yet \<open>OFFLINE\<close> is changed and appended to \<open>updated_nodes\<close>. The column
  \<^verbatim>\<open>last_seen\<close> is not nullable and a \<^verbatim>\<open>datetime\<close> is never falsy, so
  \<^verbatim>\<open>_as_utc(node.last_seen) or now\<close> is \<^verbatim>\<open>last_seen\<close>.
\<close>

fun stale_loop ::
    "int \<Rightarrow> int \<Rightarrow> NodeRecord list \<Rightarrow> Node list \<Rightarrow> NodeRecord list \<times> Node list" where
  "stale_loop now cutoff [] updated_nodes = ([], updated_nodes)"
| "stale_loop now cutoff (node # rows) updated_nodes =
    (if r_last_seen node < cutoff \<and> r_status node \<noteq> OFFLINE then
       (let node = node\<lparr>r_status := OFFLINE, r_updated_at := now\<rparr>;
            (rows, updated_nodes) = stale_loop now cutoff rows (updated_nodes @ [to_node node])
        in (node # rows, updated_nodes))
     else
       (let (rows, updated_nodes) = stale_loop now cutoff rows updated_nodes
        in (node # rows, updated_nodes)))"

definition mark_offline_if_stale_nodes ::
    "NodeRecord list \<Rightarrow> int \<Rightarrow> int \<Rightarrow> exn + (Node list \<times> NodeRecord list)" where
  "mark_offline_if_stale_nodes table now stale_seconds =
    (case timedelta_seconds stale_seconds of
       Inl e \<Rightarrow> Inl e
     | Inr delta \<Rightarrow>
         (case datetime_sub now delta of
            Inl e \<Rightarrow> Inl e
          | Inr cutoff \<Rightarrow>
              (let (rows, updated_nodes) = stale_loop now cutoff table []
               in Inr (updated_nodes, rows))))"

definition mark_offline_if_stale ::
    "NodeRecord list \<Rightarrow> int \<Rightarrow> int \<Rightarrow> exn + (nat \<times> NodeRecord list)" where
  "mark_offline_if_stale table now stale_seconds =
    (case mark_offline_if_stale_nodes table now stale_seconds of
       Inl e \<Rightarrow> Inl e
     | Inr (updated_nodes, rows) \<Rightarrow> Inr (length updated_nodes, rows))"

text \<open>The predicate of the sweep: the rows it changes.\<close>

definition stale :: "int \<Rightarrow> NodeRecord \<Rightarrow> bool" where
  "stale cutoff node = (r_last_seen node < cutoff \<and> r_status node \<noteq> OFFLINE)"

section \<open>Metrics history buffer\<close>

text \<open>
  \<^verbatim>\<open>deque(maxlen=n).append(x)\<close>: append on the right, then drop from the left while the
  deque is longer than \<open>n\<close>. The constructor raises \<^verbatim>\<open>ValueError\<close> for a negative
  \<^verbatim>\<open>maxlen\<close>; the \<^verbatim>\<open>defaultdict\<close> calls it at the first append for a node id.
\<close>

definition deque_append :: "int \<Rightarrow> 'm list \<Rightarrow> 'm \<Rightarrow> 'm list" where
  "deque_append maxlen d x =
    (let d = d @ [x] in if maxlen < int (length d) then tl d else d)"

record 'm MetricsHistoryBuffer =
  max_samples :: int
  samples :: "string \<Rightarrow> 'm list option"

definition new_buffer :: "int \<Rightarrow> 'm MetricsHistoryBuffer" where
  "new_buffer n = \<lparr>max_samples = n, samples = (\<lambda>k. None)\<rparr>"

definition buffer_append ::
    "'m MetricsHistoryBuffer \<Rightarrow> string \<Rightarrow> 'm \<Rightarrow> exn + 'm MetricsHistoryBuffer" where
  "buffer_append self nid m =
    (case samples self nid of
       None \<Rightarrow>
         (if max_samples self < 0 then Inl ValueError
          else Inr (self\<lparr>samples := (samples self)(nid \<mapsto> deque_append (max_samples self) [] m)\<rparr>))
     | Some d \<Rightarrow>
         Inr (self\<lparr>samples := (samples self)(nid \<mapsto> deque_append (max_samples self) d m)\<rparr>))"

text \<open>
  The slice \<^verbatim>\<open>items[start:]\<close>: a negative \<open>start\<close> counts from the end, and both
  ends are clamped to the list.
\<close>

definition slice_from :: "'a list \<Rightarrow> int \<Rightarrow> 'a list" where
  "slice_from xs start =
    (let n = int (length xs);
         s = (if start < 0 then max (n + start) 0 else min start n)
     in drop (nat s) xs)"

definition buffer_get :: "'m MetricsHistoryBuffer \<Rightarrow> string \<Rightarrow> int \<Rightarrow> 'm list" where
  "buffer_get self nid limit =
    (case samples self nid of
       None \<Rightarrow> []
     | Some d \<Rightarrow> (if d = [] then [] else slice_from d (- limit)))"

text \<open>The samples held for a node id, none when the id was never seen.\<close>

definition stored :: "'m MetricsHistoryBuffer \<Rightarrow> string \<Rightarrow> 'm list" where
  "stored self nid = (case samples self nid of None \<Rightarrow> [] | Some d \<Rightarrow> d)"

text \<open>A sequence of appends, stopping at the first one that raises.\<close>

fun append_all ::
    "'m MetricsHistoryBuffer \<Rightarrow> (string \<times> 'm) list \<Rightarrow> exn + 'm MetricsHistoryBuffer" where
  "append_all self [] = Inr self"
| "append_all self ((nid, m) # rest) =
    (case buffer_append self nid m of Inl e \<Rightarrow> Inl e | Inr self' \<Rightarrow> append_all self' rest)"

text \<open>The samples appended for one node id, oldest first.\<close>

definition appended_for :: "string \<Rightarrow> (string \<times> 'm) list \<Rightarrow> 'm list" where
  "appended_for nid ops = map snd (filter (\<lambda>p. fst p = nid) ops)"

section \<open>Event bus\<close>

text \<open>
  An \<^verbatim>\<open>asyncio.Queue(maxsize)\<close> with its pending items, oldest first. A \<open>maxsize\<close> of zero
  or less means no bound.
\<close>

record 'e Queue =
  maxsize :: int
  pending :: "'e list"

definition full :: "'e Queue \<Rightarrow> bool" where
  "full q = (if maxsize q \<le> 0 then False else maxsize q \<le> int (length (pending q)))"

definition get_nowait :: "'e Queue \<Rightarrow> exn + ('e \<times> 'e Queue)" where
  "get_nowait q =
    (case pending q of [] \<Rightarrow> Inl QueueEmpty | x # xs \<Rightarrow> Inr (x, q\<lparr>pending := xs\<rparr>))"

definition put_nowait :: "'e Queue \<Rightarrow> 'e \<Rightarrow> exn + 'e Queue" where
  "put_nowait q e = (if full q then Inl QueueFull else Inr (q\<lparr>pending := pending q @ [e]\<rparr>))"

text \<open>
  The bus: the set of subscriber queues, each queue object named by a reference, in the
  order the snapshot \<^verbatim>\<open>tuple(self._subscribers)\<close> lists them.
\<close>

record 'e NodeEventBus =
  queue_size :: int
  subscribers :: "(nat \<times> 'e Queue) list"
  next_ref :: nat

definition new_bus :: "int \<Rightarrow> 'e NodeEventBus" where
  "new_bus n = \<lparr>queue_size = n, subscribers = [], next_ref = 0\<rparr>"

definition subscribe :: "'e NodeEventBus \<Rightarrow> nat \<times> 'e NodeEventBus" where
  "subscribe self =
    (let qref = next_ref self;
         queue = \<lparr>maxsize = queue_size self, pending = []\<rparr>
     in (qref, self\<lparr>subscribers := subscribers self @ [(qref, queue)], next_ref := Suc qref\<rparr>))"

definition unsubscribe :: "'e NodeEventBus \<Rightarrow> nat \<Rightarrow> 'e NodeEventBus" where
  "unsubscribe self qref =
    self\<lparr>subscribers := filter (\<lambda>p. fst p \<noteq> qref) (subscribers self)\<rparr>"

text \<open>
  One pass of \<^verbatim>\<open>publish\<close> over the snapshot. Only \<^verbatim>\<open>QueueEmpty\<close> is caught; a
  \<^verbatim>\<open>QueueFull\<close> from \<^verbatim>\<open>put_nowait\<close> would end the loop with the queues before it already
  served.
\<close>

definition deliver :: "'e Queue \<Rightarrow> 'e \<Rightarrow> exn + 'e Queue" where
  "deliver queue event =
    (let queue = (if full queue then
                    (case get_nowait queue of
                       Inl e \<Rightarrow> queue
                     | Inr (x, queue') \<Rightarrow> queue')
                  else queue)
     in put_nowait queue event)"

fun publish_loop ::
    "(nat \<times> 'e Queue) list \<Rightarrow> 'e \<Rightarrow> exn option \<times> (nat \<times> 'e Queue) list" where
  "publish_loop [] event = (None, [])"
| "publish_loop ((qref, queue) # rest) event =
    (case deliver queue event of
       Inl e \<Rightarrow> (Some e, (qref, queue) # rest)
     | Inr queue' \<Rightarrow>
         (let (r, rest') = publish_loop rest event in (r, (qref, queue') # rest')))"

definition publish :: "'e NodeEventBus \<Rightarrow> 'e \<Rightarrow> exn option \<times> 'e NodeEventBus" where
  "publish self event =
    (let (r, subs) = publish_loop (subscribers self) event
     in (r, self\<lparr>subscribers := subs\<rparr>))"

text \<open>A sequence of publishes with nothing consumed in between.\<close>

fun publish_all :: "'e NodeEventBus \<Rightarrow> 'e list \<Rightarrow> exn option \<times> 'e NodeEventBus" where
  "publish_all self [] = (None, self)"
| "publish_all self (e # es) =
    (case publish self e of
       (None, self') \<Rightarrow> publish_all self' es
     | (Some x, self') \<Rightarrow> (Some x, self'))"

text \<open>The events pending for a subscriber, none when it is not subscribed.\<close>

definition pending_of :: "'e NodeEventBus \<Rightarrow> nat \<Rightarrow> 'e list option" where
  "pending_of self qref = map_option pending (map_of (subscribers self) qref)"

text \<open>
  What every queue of the bus satisfies, since only \<^verbatim>\<open>put_nowait\<close> adds to it: a bounded
  queue holds no more than its bound. References are issued once.
\<close>

definition queue_ok :: "'e Queue \<Rightarrow> bool" where
  "queue_ok q = (maxsize q \<le> 0 \<or> int (length (pending q)) \<le> maxsize q)"

definition bus_ok :: "'e NodeEventBus \<Rightarrow> bool" where
  "bus_ok self =
    (list_all (\<lambda>p. queue_ok (snd p) \<and> fst p < next_ref self) (subscribers self)
     \<and> distinct (map fst (subscribers self)))"

section \<open>Auxiliary definitions and example inputs\<close>

text \<open>
  The node of the scheduler's tests, with the CPU at 60 percent as in
  \<^verbatim>\<open>test_is_node_ineligible_when_cpu_over_cap\<close>.
\<close>

definition example_node :: Node where
  "example_node =
    \<lparr>identity = \<lparr>node_id = ''n1'', display_name = ''Node 1'', ip = ''127.0.0.1'', port = 9100\<rparr>,
     capabilities = \<lparr>task_types = [INFERENCE, EMBEDDINGS, INDEX, TOKENIZE], labels = [''gpu''],
        has_gpu = True, cpu_cores = Some 8, cpu_threads = Some 16, ram_total_gb = Some 32,
        gpu_name = Some ''NVIDIA'', vram_total_gb = Some 24, os = Some ''linux'',
        arch = Some ''x86_64''\<rparr>,
     metrics = \<lparr>cpu_percent = 60, ram_used_gb = 10, ram_percent = 30, gpu_percent = Some 40,
        vram_used_gb = Some 5, running_jobs = 1, heartbeat_ts = 0, extra = []\<rparr>,
     policy = \<lparr>enabled = True, cpu_cap_percent = 50, gpu_cap_percent = Some 75,
        ram_cap_percent = 80, task_allowlist = [INFERENCE, EMBEDDINGS, INDEX, TOKENIZE],
        role_preference = AUTO\<rparr>,
     status = ONLINE, last_seen = 0, created_at = 0, updated_at = 0\<rparr>"

text \<open>
  The row after an allowed transition to \<open>new\<close>: what the last branch of
  \<^verbatim>\<open>transition_job_status\<close> writes.
\<close>

definition entered :: "JobRecord \<Rightarrow> int \<Rightarrow> JobStatus \<Rightarrow> string option \<Rightarrow> JobRecord" where
  "entered row now new err =
     (if new = RUNNING then
        row\<lparr>job_status := RUNNING, job_updated_at := now,
            started_at := (case started_at row of Some t \<Rightarrow> Some t | None \<Rightarrow> Some now),
            attempts := attempts row + 1, error := None\<rparr>
      else if new = COMPLETED then
        row\<lparr>job_status := COMPLETED, job_updated_at := now, completed_at := Some now, error := None\<rparr>
      else if new = FAILED then
        row\<lparr>job_status := FAILED, job_updated_at := now, completed_at := Some now,
            error := str_or err (str_or (error row) (Some ''Job failed''))\<rparr>
      else row\<lparr>job_status := new, job_updated_at := now\<rparr>)"

text \<open>
  Default models for the examples: the default policy of the specification (enabled, all
  caps 100, every task type, \<open>AUTO\<close>), no hardware known, no load.
\<close>

definition example_defaults :: ModelDefaults where
  "example_defaults =
    \<lparr>default_capabilities =
       \<lparr>task_types = [INFERENCE, EMBEDDINGS, INDEX, TOKENIZE, PREPROCESS], labels = [],
        has_gpu = False, cpu_cores = None, cpu_threads = None, ram_total_gb = None,
        gpu_name = None, vram_total_gb = None, os = None, arch = None\<rparr>,
     default_metrics =
       \<lparr>cpu_percent = 0, ram_used_gb = 0, ram_percent = 0, gpu_percent = None,
        vram_used_gb = None, running_jobs = 0, heartbeat_ts = 0, extra = []\<rparr>,
     default_policy =
       \<lparr>enabled = True, cpu_cap_percent = 100, gpu_cap_percent = Some 100,
        ram_cap_percent = 100,
        task_allowlist = [INFERENCE, EMBEDDINGS, INDEX, TOKENIZE, PREPROCESS],
        role_preference = AUTO\<rparr>\<rparr>"

text \<open>A heartbeat payload, and a policy as an operator would submit it.\<close>

definition example_metrics :: NodeMetrics where
  "example_metrics =
    \<lparr>cpu_percent = 34, ram_used_gb = 78 / 10, ram_percent = 512 / 10, gpu_percent = Some 40,
     vram_used_gb = Some 6, running_jobs = 1, heartbeat_ts = 5000000, extra = []\<rparr>"

definition example_policy :: NodePolicy where
  "example_policy =
    \<lparr>enabled = True, cpu_cap_percent = 80, gpu_cap_percent = Some 70, ram_cap_percent = 75,
     task_allowlist = [INFERENCE, EMBEDDINGS], role_preference = PREFER_INFERENCE\<rparr>"

text \<open>
  Two rows for the sweep: \<open>node-1\<close> was last seen at second 5, \<open>node-2\<close> at second 100.
\<close>

definition example_row1 :: NodeRecord where
  "example_row1 =
    \<lparr>r_node_id = ''node-1'', r_display_name = ''Node One'', r_ip = ''10.0.0.5'', r_port = 7001,
     r_status = ONLINE, capabilities_json = default_capabilities example_defaults,
     metrics_json = example_metrics, policy_json = default_policy example_defaults,
     r_last_seen = 5000000, r_created_at = 1000000, r_updated_at = 5000000\<rparr>"

definition example_row2 :: NodeRecord where
  "example_row2 =
    \<lparr>r_node_id = ''node-2'', r_display_name = ''Node Two'', r_ip = ''10.0.0.6'', r_port = 7001,
     r_status = ONLINE, capabilities_json = default_capabilities example_defaults,
     metrics_json = example_metrics, policy_json = default_policy example_defaults,
     r_last_seen = 100000000, r_created_at = 1000000, r_updated_at = 100000000\<rparr>"

text \<open>The row after the sweep has demoted it.\<close>

definition demoted :: "int \<Rightarrow> NodeRecord \<Rightarrow> NodeRecord" where
  "demoted now node = node\<lparr>r_status := OFFLINE, r_updated_at := now\<rparr>"

text \<open>The row \<^verbatim>\<open>_ensure_node\<close> inserts for an unknown id.\<close>

definition fresh_row :: "ModelDefaults \<Rightarrow> int \<Rightarrow> string \<Rightarrow> NodeRecord" where
  "fresh_row self now nid =
    \<lparr>r_node_id = nid, r_display_name = nid, r_ip = ''0.0.0.0'', r_port = 0,
     r_status = UNKNOWN,
     capabilities_json = default_capabilities self,
     metrics_json = default_metrics self,
     policy_json = default_policy self,
     r_last_seen = now, r_created_at = now, r_updated_at = now\<rparr>"

text \<open>The last \<open>n\<close> elements of a list, all of it when it is shorter.\<close>

definition last_n :: "nat \<Rightarrow> 'a list \<Rightarrow> 'a list" where
  "last_n n xs = drop (length xs - n) xs"

text \<open>A buffer holding three samples for \<open>node-1\<close>, oldest first.\<close>

definition example_buffer :: "nat MetricsHistoryBuffer" where
  "example_buffer = \<lparr>max_samples = 256, samples = (\<lambda>k. None)(''node-1'' \<mapsto> [10, 20, 30])\<rparr>"

text \<open>
  A queue after one delivery without failure: the oldest pending event gone when the
  queue was full, the new event last.
\<close>

definition served :: "'e Queue \<Rightarrow> 'e \<Rightarrow> 'e Queue" where
  "served q e = q\<lparr>pending := (if full q then tl (pending q) else pending q) @ [e]\<rparr>"

text \<open>What a queue of bound \<open>c\<close> keeps of a sequence: all of it when unbounded.\<close>

definition kept :: "int \<Rightarrow> 'e list \<Rightarrow> 'e list" where
  "kept c xs = (if c \<le> 0 then xs else last_n (nat c) xs)"

text \<open>A bus with queues of two, for the examples.\<close>

definition example_bus :: "nat NodeEventBus" where
  "example_bus = new_bus 2"

section \<open>Properties of the scheduler core\<close>

subsection \<open>Eligibility\<close>

lemma app_if: "(if c then xs @ [s] else xs) = xs @ (if c then [s] else [])"
  by simp

lemma gpu_stage:
  "(if T then (if \<not> G then R @ [a]
               else (case gp of None \<Rightarrow> R | Some g \<Rightarrow> R @ (if P g then [b] else [])))
    else R) =
   R @ (if T \<and> \<not> G then [a] else []) @
       (if T \<and> G \<and> (case gp of None \<Rightarrow> False | Some g \<Rightarrow> P g) then [b] else [])"
  by (cases gp) auto

text \<open>The reasons, in the order the checks are made: one optional entry per check.\<close>

lemma eligibility_reasons_struct:
  "snd (evaluate_node_eligibility node task) =
     (if \<not> enabled (policy node) then [''policy_disabled''] else []) @
     (if status node \<noteq> ONLINE then [''node_not_online''] else []) @
     (if task \<notin> set (task_allowlist (policy node)) then [''task_not_allowed''] else []) @
     (if cpu_percent (metrics node) > real_of_int (cpu_cap_percent (policy node))
      then [''cpu_over_cap''] else []) @
     (if ram_percent (metrics node) > real_of_int (ram_cap_percent (policy node))
      then [''ram_over_cap''] else []) @
     (if task = INFERENCE \<and> \<not> has_gpu (capabilities node) then [''gpu_required''] else []) @
     (if task = INFERENCE \<and> has_gpu (capabilities node) \<and>
         (case gpu_percent (metrics node) of
            None \<Rightarrow> False
          | Some g \<Rightarrow> g > real_of_int (case gpu_cap_percent (policy node) of
                                         None \<Rightarrow> 100 | Some c \<Rightarrow> c))
      then [''gpu_over_cap''] else [])"
  unfolding evaluate_node_eligibility_def task_requires_gpu_def gpu_cap_of_def Let_def
  apply (simp only: gpu_stage app_if append_Nil snd_conv)
  apply (simp only: append_assoc)
  done

lemma mem_if_single: "(x \<in> set (if c then [s] else [])) = (c \<and> x = s)"
  by auto

lemma eligibility_fst:
  "fst (evaluate_node_eligibility node task) = (snd (evaluate_node_eligibility node task) = [])"
  unfolding evaluate_node_eligibility_def Let_def by (simp only: fst_conv snd_conv length_0_conv)

lemma eligibility_mem:
  "(x \<in> set (snd (evaluate_node_eligibility node task))) =
     (\<not> enabled (policy node) \<and> x = ''policy_disabled'' \<or>
      status node \<noteq> ONLINE \<and> x = ''node_not_online'' \<or>
      task \<notin> set (task_allowlist (policy node)) \<and> x = ''task_not_allowed'' \<or>
      cpu_percent (metrics node) > real_of_int (cpu_cap_percent (policy node))
        \<and> x = ''cpu_over_cap'' \<or>
      ram_percent (metrics node) > real_of_int (ram_cap_percent (policy node))
        \<and> x = ''ram_over_cap'' \<or>
      (task = INFERENCE \<and> \<not> has_gpu (capabilities node)) \<and> x = ''gpu_required'' \<or>
      (task = INFERENCE \<and> has_gpu (capabilities node) \<and>
         (case gpu_percent (metrics node) of
            None \<Rightarrow> False
          | Some g \<Rightarrow> g > real_of_int (case gpu_cap_percent (policy node) of
                                         None \<Rightarrow> 100 | Some c \<Rightarrow> c))) \<and> x = ''gpu_over_cap'')"
  by (simp only: eligibility_reasons_struct set_append Un_iff mem_if_single)

lemma eligibility_subset:
  "set (snd (evaluate_node_eligibility node task)) \<subseteq>
     {''policy_disabled'', ''node_not_online'', ''task_not_allowed'',
      ''cpu_over_cap'', ''ram_over_cap'', ''gpu_required'', ''gpu_over_cap''}"
proof (rule subsetI)
  fix x
  assume "x \<in> set (snd (evaluate_node_eligibility node task))"
  then have "x = ''policy_disabled'' \<or> x = ''node_not_online'' \<or> x = ''task_not_allowed'' \<or>
      x = ''cpu_over_cap'' \<or> x = ''ram_over_cap'' \<or> x = ''gpu_required'' \<or>
      x = ''gpu_over_cap''"
    unfolding eligibility_mem by (elim disjE conjE) (simp_all only: refl simp_thms)
  then show "x \<in> {''policy_disabled'', ''node_not_online'', ''task_not_allowed'',
      ''cpu_over_cap'', ''ram_over_cap'', ''gpu_required'', ''gpu_over_cap''}"
    by (simp only: insert_iff empty_iff simp_thms)
qed

text \<open>
  C1. For every node and task type, \<open>evaluate_node_eligibility\<close> returns
  \<open>eligible = True\<close> exactly when the list of reasons is empty; the reasons are drawn
  from the seven names of the enumeration, and each name is in the list exactly when its
  condition holds: \<open>policy_disabled\<close> iff the policy is not enabled, \<open>node_not_online\<close>
  iff the status is not \<open>ONLINE\<close>, \<open>task_not_allowed\<close> iff the task is not in the
  allowlist, \<open>cpu_over_cap\<close> and \<open>ram_over_cap\<close> iff the percentage exceeds its cap,
  and, only for \<open>INFERENCE\<close>, \<open>gpu_required\<close> iff the node has no GPU, else
  \<open>gpu_over_cap\<close> iff the GPU percentage is known and exceeds the GPU cap (100 when
  unset).
\<close>

theorem evaluate_node_eligibility_reasons:
  assumes "evaluate_node_eligibility node task = (eligible, reasons)"
  shows "eligible = (reasons = []) \<and>
     set reasons \<subseteq> {''policy_disabled'', ''node_not_online'', ''task_not_allowed'',
                     ''cpu_over_cap'', ''ram_over_cap'', ''gpu_required'', ''gpu_over_cap''} \<and>
     (''policy_disabled'' \<in> set reasons) = (\<not> enabled (policy node)) \<and>
     (''node_not_online'' \<in> set reasons) = (status node \<noteq> ONLINE) \<and>
     (''task_not_allowed'' \<in> set reasons) = (task \<notin> set (task_allowlist (policy node))) \<and>
     (''cpu_over_cap'' \<in> set reasons) =
        (cpu_percent (metrics node) > real_of_int (cpu_cap_percent (policy node))) \<and>
     (''ram_over_cap'' \<in> set reasons) =
        (ram_percent (metrics node) > real_of_int (ram_cap_percent (policy node))) \<and>
     (''gpu_required'' \<in> set reasons) = (task = INFERENCE \<and> \<not> has_gpu (capabilities node)) \<and>
     (''gpu_over_cap'' \<in> set reasons) =
        (task = INFERENCE \<and> has_gpu (capabilities node) \<and>
         (case gpu_percent (metrics node) of
            None \<Rightarrow> False
          | Some g \<Rightarrow> g > real_of_int (case gpu_cap_percent (policy node) of
                                         None \<Rightarrow> 100 | Some c \<Rightarrow> c)))"
proof -
  have r: "reasons = snd (evaluate_node_eligibility node task)"
    using assms by simp
  have e: "eligible = (reasons = [])"
    using assms eligibility_fst[of node task] by simp
  have s: "set reasons \<subseteq> {''policy_disabled'', ''node_not_online'', ''task_not_allowed'',
                     ''cpu_over_cap'', ''ram_over_cap'', ''gpu_required'', ''gpu_over_cap''}"
    unfolding r by (rule eligibility_subset)
  have m1: "(''policy_disabled'' \<in> set reasons) = (\<not> enabled (policy node))"
    unfolding r eligibility_mem by simp
  have m2: "(''node_not_online'' \<in> set reasons) = (status node \<noteq> ONLINE)"
    unfolding r eligibility_mem by simp
  have m3: "(''task_not_allowed'' \<in> set reasons) = (task \<notin> set (task_allowlist (policy node)))"
    unfolding r eligibility_mem by simp
  have m4: "(''cpu_over_cap'' \<in> set reasons) =
        (cpu_percent (metrics node) > real_of_int (cpu_cap_percent (policy node)))"
    unfolding r eligibility_mem by simp
  have m5: "(''ram_over_cap'' \<in> set reasons) =
        (ram_percent (metrics node) > real_of_int (ram_cap_percent (policy node)))"
    unfolding r eligibility_mem by simp
  have m6: "(''gpu_required'' \<in> set reasons) =
        (task = INFERENCE \<and> \<not> has_gpu (capabilities node))"
    unfolding r eligibility_mem by simp
  have m7: "(''gpu_over_cap'' \<in> set reasons) =
        (task = INFERENCE \<and> has_gpu (capabilities node) \<and>
         (case gpu_percent (metrics node) of
            None \<Rightarrow> False
          | Some g \<Rightarrow> g > real_of_int (case gpu_cap_percent (policy node) of
                                         None \<Rightarrow> 100 | Some c \<Rightarrow> c)))"
    unfolding r eligibility_mem by simp
  show ?thesis using e s m1 m2 m3 m4 m5 m6 m7 by (intro conjI)
qed

lemma example_node_inference:
  "evaluate_node_eligibility example_node INFERENCE = (False, [''cpu_over_cap''])"
  by (simp add: evaluate_node_eligibility_def example_node_def task_requires_gpu_def
        gpu_cap_of_def Let_def)

text \<open>
  The example node, over its CPU cap, asked for \<open>INFERENCE\<close>: the one reason is
  \<open>cpu_over_cap\<close>, and the theorem ties it to the comparison of 60 with the cap 50.
\<close>

theorem evaluate_node_eligibility_reasons_witness:
  "evaluate_node_eligibility example_node INFERENCE = (False, [''cpu_over_cap'']) \<and>
   False = ([''cpu_over_cap''] = ([] :: string list)) \<and>
   (''cpu_over_cap'' \<in> set [''cpu_over_cap'']) =
      (cpu_percent (metrics example_node) > real_of_int (cpu_cap_percent (policy example_node))) \<and>
   (''gpu_required'' \<in> set [''cpu_over_cap'']) =
      (INFERENCE = INFERENCE \<and> \<not> has_gpu (capabilities example_node))"
  using evaluate_node_eligibility_reasons [OF example_node_inference] example_node_inference
  by (intro conjI) simp_all

section \<open>Properties of the job lifecycle\<close>

subsection \<open>The branches of a transition\<close>

lemma get_job_row_id: "get_job_row table jid = Some row \<Longrightarrow> job_id row = jid"
  unfolding get_job_row_def by (induction table) (auto split: if_splits)

lemma get_job_row_flush:
  "get_job_row table jid = Some row \<Longrightarrow> job_id row' = jid \<Longrightarrow>
   get_job_row (flush_job_row table row') jid = Some row'"
  unfolding get_job_row_def flush_job_row_def by (induction table) (auto split: if_splits)

lemma transition_missing:
  "get_job_row table jid = None \<Longrightarrow>
   transition_job_status table now jid new err = (Inl (KeyError jid), table)"
  by (simp add: transition_job_status_def)

lemma transition_self:
  "get_job_row table jid = Some row \<Longrightarrow> job_status row = new \<Longrightarrow>
   transition_job_status table now jid new err =
     (if err = None then (Inr row, table)
      else (Inr (row\<lparr>error := err, job_updated_at := now\<rparr>),
            flush_job_row table (row\<lparr>error := err, job_updated_at := now\<rparr>)))"
  by (simp add: transition_job_status_def Let_def to_job_def)

lemma transition_conflict:
  "get_job_row table jid = Some row \<Longrightarrow> job_status row \<noteq> new \<Longrightarrow>
   new \<notin> ALLOWED_JOB_TRANSITIONS (job_status row) \<Longrightarrow>
   transition_job_status table now jid new err = (Inl ValueError, table)"
  by (simp add: transition_job_status_def Let_def)

lemma transition_allowed:
  "get_job_row table jid = Some row \<Longrightarrow> job_status row \<noteq> new \<Longrightarrow>
   new \<in> ALLOWED_JOB_TRANSITIONS (job_status row) \<Longrightarrow>
   transition_job_status table now jid new err =
     (Inr (entered row now new err), flush_job_row table (entered row now new err))"
  by (simp add: transition_job_status_def Let_def to_job_def entered_def)

lemma allowed_iff:
  "(new \<in> ALLOWED_JOB_TRANSITIONS cur) =
   ((cur, new) \<in> {(QUEUED, RUNNING), (RUNNING, COMPLETED), (RUNNING, FAILED)})"
  by (cases cur) auto

lemma entered_id: "job_id (entered row now new err) = job_id row"
  by (simp add: entered_def)

lemma entered_status: "job_status (entered row now new err) = new"
  by (simp add: entered_def)

lemma transition_cases:
  assumes r: "get_job_row table jid = Some row"
    and t: "transition_job_status table now jid new err = (Inr job, table')"
  shows "(job_status row = new \<and>
            job = (if err = None then row else row\<lparr>error := err, job_updated_at := now\<rparr>)) \<or>
         (job_status row \<noteq> new \<and> new \<in> ALLOWED_JOB_TRANSITIONS (job_status row) \<and>
            job = entered row now new err \<and> table' = flush_job_row table job)"
proof (cases "job_status row = new")
  case True
  with t transition_self[OF r True, of now err] show ?thesis by (auto split: if_splits)
next
  case False
  show ?thesis
  proof (cases "new \<in> ALLOWED_JOB_TRANSITIONS (job_status row)")
    case True
    with t False transition_allowed[OF r False True, of now err] show ?thesis by auto
  next
    case False2: False
    with t transition_conflict[OF r False False2, of now err] show ?thesis by simp
  qed
qed

lemma str_or_chain:
  "str_or err (str_or prev (Some ''Job failed'')) =
     (if err \<noteq> None \<and> err \<noteq> Some [] then err
      else if prev \<noteq> None \<and> prev \<noteq> Some [] then prev
      else Some ''Job failed'')"
  by (auto simp: str_or_def split: option.splits)

lemma transition_step_fields:
  assumes r: "get_job_row table jid = Some row"
    and t: "transition_job_status table now jid new err = (Inr job, table')"
  shows "attempts job =
           (if new = RUNNING \<and> job_status row \<noteq> RUNNING then attempts row + 1
            else attempts row) \<and>
         started_at job =
           (if new = RUNNING \<and> job_status row \<noteq> RUNNING \<and> started_at row = None
            then Some now else started_at row) \<and>
         completed_at job =
           (if (new = COMPLETED \<or> new = FAILED) \<and> job_status row \<noteq> new
            then Some now else completed_at row) \<and>
         (new = RUNNING \<and> job_status row \<noteq> RUNNING \<longrightarrow> error job = None) \<and>
         (new = FAILED \<and> job_status row \<noteq> FAILED \<longrightarrow>
            error job =
              (if err \<noteq> None \<and> err \<noteq> Some [] then err
               else if error row \<noteq> None \<and> error row \<noteq> Some [] then error row
               else Some ''Job failed''))"
  using transition_cases[OF r t]
proof (elim disjE conjE)
  assume "job_status row = new"
    and "job = (if err = None then row else row\<lparr>error := err, job_updated_at := now\<rparr>)"
  then show ?thesis by auto
next
  assume ne: "job_status row \<noteq> new"
    and al: "new \<in> ALLOWED_JOB_TRANSITIONS (job_status row)"
    and j: "job = entered row now new err"
  from al ne have "new = RUNNING \<or> new = COMPLETED \<or> new = FAILED"
    by (cases "job_status row") auto
  then show ?thesis
    unfolding j using ne
    by (elim disjE) (auto simp: entered_def str_or_chain split: option.splits)
qed

lemma transition_failure_unchanged:
  assumes f: "fst (transition_job_status table now jid new err) = Inl e"
  shows "snd (transition_job_status table now jid new err) = table"
proof (cases "get_job_row table jid")
  case None
  then show ?thesis by (simp add: transition_missing)
next
  case (Some row)
  show ?thesis
  proof (cases "job_status row = new")
    case True
    with f transition_self[OF Some True, of now err] show ?thesis by (simp split: if_splits)
  next
    case False
    show ?thesis
    proof (cases "new \<in> ALLOWED_JOB_TRANSITIONS (job_status row)")
      case True
      with f transition_allowed[OF Some False True, of now err] show ?thesis by simp
    next
      case False2: False
      with transition_conflict[OF Some False False2, of now err] show ?thesis by simp
    qed
  qed
qed

lemma transition_ok_lookup:
  assumes r: "get_job_row table jid = Some row"
    and t: "transition_job_status table now jid new err = (Inr job, table')"
  shows "get_job_row table' jid = Some job"
  using transition_cases[OF r t]
proof (elim disjE conjE)
  assume s: "job_status row = new"
    and j: "job = (if err = None then row else row\<lparr>error := err, job_updated_at := now\<rparr>)"
  show ?thesis
  proof (cases "err = None")
    case True
    with t transition_self[OF r s, of now err] r show ?thesis by simp
  next
    case False
    have i: "job_id (row\<lparr>error := err, job_updated_at := now\<rparr>) = jid"
      using get_job_row_id[OF r] by simp
    from t transition_self[OF r s, of now err] False get_job_row_flush[OF r i]
    show ?thesis by auto
  qed
next
  assume j: "job = entered row now new err" and f: "table' = flush_job_row table job"
  have i: "job_id job = jid" using get_job_row_id[OF r] by (simp add: j entered_id)
  from get_job_row_flush[OF r i] f show ?thesis by simp
qed

lemma transition_step_keeps:
  assumes r: "get_job_row table jid = Some row"
  shows "\<exists>job. get_job_row (snd (transition_job_status table now jid new err)) jid = Some job \<and>
           attempts row \<le> attempts job \<and>
           (started_at row \<noteq> None \<longrightarrow> started_at job = started_at row)"
proof (cases "transition_job_status table now jid new err")
  case (Pair res table')
  show ?thesis
  proof (cases res)
    case (Inl e)
    with Pair transition_failure_unchanged[of table now jid new err e]
    have "table' = table" by simp
    with Pair r show ?thesis by auto
  next
    case (Inr job)
    with Pair have t: "transition_job_status table now jid new err = (Inr job, table')" by simp
    have g: "get_job_row table' jid = Some job"
      by (rule transition_ok_lookup[OF r t])
    from transition_step_fields[OF r t] g Pair show ?thesis
      by (auto split: if_splits)
  qed
qed

lemma run_transitions_keeps:
  "get_job_row table jid = Some row \<Longrightarrow>
   \<exists>job. get_job_row (run_transitions table jid calls) jid = Some job \<and>
         attempts row \<le> attempts job \<and>
         (started_at row \<noteq> None \<longrightarrow> started_at job = started_at row)"
proof (induction calls arbitrary: table row)
  case Nil
  then show ?case by simp
next
  case (Cons c calls)
  obtain now new err where c: "c = (now, new, err)" by (cases c) auto
  let ?t = "snd (transition_job_status table now jid new err)"
  from transition_step_keeps[OF Cons.prems, of now new err]
  obtain mid where m: "get_job_row ?t jid = Some mid" "attempts row \<le> attempts mid"
    "started_at row \<noteq> None \<longrightarrow> started_at mid = started_at row" by blast
  from Cons.IH[OF m(1)]
  obtain job where j: "get_job_row (run_transitions ?t jid calls) jid = Some job"
    "attempts mid \<le> attempts job" "started_at mid \<noteq> None \<longrightarrow> started_at job = started_at mid"
    by blast
  show ?case
    apply (rule exI[of _ job])
    using m j c by auto
qed

lemma ex_table: "get_job_row [example_job] ''job-1'' = Some example_job"
  by (simp add: get_job_row_def example_job_def)

subsection \<open>Outcomes\<close>

text \<open>
  C3. \<open>transition_job_status\<close> raises \<open>KeyError\<close> (404 at the route) when no job has
  the id; returns the job when \<open>new\<close> is the current status, unchanged when no error
  is given and with \<open>error\<close> and \<open>updated_at\<close> set otherwise; returns the job in the
  new status when the step is \<open>QUEUED\<close> to \<open>RUNNING\<close> or \<open>RUNNING\<close> to
  \<open>COMPLETED\<close> or \<open>FAILED\<close>; raises \<open>ValueError\<close> (409 at the route) in every other
  case, in particular for every change out of \<open>COMPLETED\<close>, \<open>FAILED\<close> and
  \<open>CANCELLED\<close>; and a call that raises leaves the table as it was.
\<close>

theorem transition_job_status_outcomes:
  "(get_job_row table jid = None \<longrightarrow>
      transition_job_status table now jid new err = (Inl (KeyError jid), table) \<and>
      transition_job_status_route table now jid new err = (HTTPException 404, table)) \<and>
   (\<forall>row. get_job_row table jid = Some row \<longrightarrow>
      (job_status row = new \<longrightarrow>
         (\<exists>job table'. transition_job_status table now jid new err = (Inr job, table') \<and>
            transition_job_status_route table now jid new err = (Response 200 job, table') \<and>
            job = (if err = None then row else row\<lparr>error := err, job_updated_at := now\<rparr>) \<and>
            (err = None \<longrightarrow> table' = table) \<and>
            get_job_row table' jid = Some job)) \<and>
      ((job_status row, new) \<in> {(QUEUED, RUNNING), (RUNNING, COMPLETED), (RUNNING, FAILED)} \<longrightarrow>
         (\<exists>job table'. transition_job_status table now jid new err = (Inr job, table') \<and>
            transition_job_status_route table now jid new err = (Response 200 job, table') \<and>
            job_status job = new \<and> job_id job = jid \<and>
            get_job_row table' jid = Some job)) \<and>
      (job_status row \<noteq> new \<and>
       (job_status row, new) \<notin> {(QUEUED, RUNNING), (RUNNING, COMPLETED), (RUNNING, FAILED)} \<longrightarrow>
         transition_job_status table now jid new err = (Inl ValueError, table) \<and>
         transition_job_status_route table now jid new err = (HTTPException 409, table)) \<and>
      (job_status row \<in> {COMPLETED, FAILED, CANCELLED} \<and> new \<noteq> job_status row \<longrightarrow>
         transition_job_status table now jid new err = (Inl ValueError, table))) \<and>
   (\<forall>e. fst (transition_job_status table now jid new err) = Inl e \<longrightarrow>
      snd (transition_job_status table now jid new err) = table)"
proof (intro conjI allI impI)
  assume "get_job_row table jid = None"
  then show "transition_job_status table now jid new err = (Inl (KeyError jid), table)"
    by (rule transition_missing)
  then show "transition_job_status_route table now jid new err = (HTTPException 404, table)"
    by (simp add: transition_job_status_route_def)
next
  fix row
  assume r: "get_job_row table jid = Some row" and s: "job_status row = new"
  let ?job = "if err = None then row else row\<lparr>error := err, job_updated_at := now\<rparr>"
  let ?table = "if err = None then table else flush_job_row table ?job"
  have t: "transition_job_status table now jid new err = (Inr ?job, ?table)"
    using transition_self[OF r s, of now err] by simp
  have g: "get_job_row ?table jid = Some ?job"
  proof (cases "err = None")
    case True
    then show ?thesis using r by simp
  next
    case False
    have "job_id (row\<lparr>error := err, job_updated_at := now\<rparr>) = jid"
      using get_job_row_id[OF r] by simp
    from get_job_row_flush[OF r this] False show ?thesis by auto
  qed
  show "\<exists>job table'. transition_job_status table now jid new err = (Inr job, table') \<and>
            transition_job_status_route table now jid new err = (Response 200 job, table') \<and>
            job = (if err = None then row else row\<lparr>error := err, job_updated_at := now\<rparr>) \<and>
            (err = None \<longrightarrow> table' = table) \<and>
            get_job_row table' jid = Some job"
    apply (rule exI[of _ ?job], rule exI[of _ ?table])
    using t g by (simp add: transition_job_status_route_def)
next
  fix row
  assume r: "get_job_row table jid = Some row"
    and a: "(job_status row, new) \<in> {(QUEUED, RUNNING), (RUNNING, COMPLETED), (RUNNING, FAILED)}"
  have ne: "job_status row \<noteq> new" using a by auto
  have al: "new \<in> ALLOWED_JOB_TRANSITIONS (job_status row)"
    unfolding allowed_iff using a by blast
  let ?job = "entered row now new err"
  have t: "transition_job_status table now jid new err = (Inr ?job, flush_job_row table ?job)"
    by (rule transition_allowed[OF r ne al])
  have i: "job_id ?job = jid" using get_job_row_id[OF r] by (simp add: entered_id)
  have g: "get_job_row (flush_job_row table ?job) jid = Some ?job"
    by (rule get_job_row_flush[OF r i])
  show "\<exists>job table'. transition_job_status table now jid new err = (Inr job, table') \<and>
            transition_job_status_route table now jid new err = (Response 200 job, table') \<and>
            job_status job = new \<and> job_id job = jid \<and>
            get_job_row table' jid = Some job"
    apply (rule exI[of _ ?job], rule exI[of _ "flush_job_row table ?job"])
    using t g i by (simp add: transition_job_status_route_def entered_status)
next
  fix row
  assume r: "get_job_row table jid = Some row"
    and c: "job_status row \<noteq> new \<and>
       (job_status row, new) \<notin> {(QUEUED, RUNNING), (RUNNING, COMPLETED), (RUNNING, FAILED)}"
  have na: "new \<notin> ALLOWED_JOB_TRANSITIONS (job_status row)"
    unfolding allowed_iff using c by blast
  show "transition_job_status table now jid new err = (Inl ValueError, table)"
    using transition_conflict[OF r _ na] c by simp
  then show "transition_job_status_route table now jid new err = (HTTPException 409, table)"
    by (simp add: transition_job_status_route_def)
next
  fix row
  assume r: "get_job_row table jid = Some row"
    and c: "job_status row \<in> {COMPLETED, FAILED, CANCELLED} \<and> new \<noteq> job_status row"
  have na: "new \<notin> ALLOWED_JOB_TRANSITIONS (job_status row)" using c by auto
  show "transition_job_status table now jid new err = (Inl ValueError, table)"
    using transition_conflict[OF r _ na] c by auto
next
  fix e
  assume "fst (transition_job_status table now jid new err) = Inl e"
  then show "snd (transition_job_status table now jid new err) = table"
    by (rule transition_failure_unchanged)
qed

text \<open>
  On the table of the example job, \<open>QUEUED\<close>: an unknown id, the self-transition, the
  start, and the refused jump to \<open>COMPLETED\<close>.
\<close>

theorem transition_job_status_outcomes_witness:
  "transition_job_status [example_job] 200 ''job-9'' RUNNING None
      = (Inl (KeyError ''job-9''), [example_job]) \<and>
   transition_job_status_route [example_job] 200 ''job-9'' RUNNING None
      = (HTTPException 404, [example_job]) \<and>
   transition_job_status [example_job] 200 ''job-1'' QUEUED None
      = (Inr example_job, [example_job]) \<and>
   job_status (projr (fst (transition_job_status [example_job] 200 ''job-1'' RUNNING None)))
      = RUNNING \<and>
   transition_job_status [example_job] 200 ''job-1'' COMPLETED None
      = (Inl ValueError, [example_job]) \<and>
   transition_job_status_route [example_job] 200 ''job-1'' COMPLETED None
      = (HTTPException 409, [example_job])"
proof -
  have n: "get_job_row [example_job] ''job-9'' = None"
    by (simp add: get_job_row_def example_job_def)
  have q: "job_status example_job = QUEUED"
    by (simp add: example_job_def)
  note a = transition_job_status_outcomes [of "[example_job]" "''job-9''" 200 RUNNING None]
  note b = transition_job_status_outcomes [of "[example_job]" "''job-1''" 200 QUEUED None]
  note c = transition_job_status_outcomes [of "[example_job]" "''job-1''" 200 RUNNING None]
  note d = transition_job_status_outcomes [of "[example_job]" "''job-1''" 200 COMPLETED None]
  have 1: "transition_job_status [example_job] 200 ''job-9'' RUNNING None
      = (Inl (KeyError ''job-9''), [example_job])"
    and 2: "transition_job_status_route [example_job] 200 ''job-9'' RUNNING None
      = (HTTPException 404, [example_job])"
    using a n by blast+
  have 3: "transition_job_status [example_job] 200 ''job-1'' QUEUED None
      = (Inr example_job, [example_job])"
    using b ex_table q by auto
  have 4: "job_status (projr (fst (transition_job_status [example_job] 200 ''job-1'' RUNNING None)))
      = RUNNING"
    using c ex_table q by auto
  have 5: "transition_job_status [example_job] 200 ''job-1'' COMPLETED None
      = (Inl ValueError, [example_job])"
    and 6: "transition_job_status_route [example_job] 200 ''job-1'' COMPLETED None
      = (HTTPException 409, [example_job])"
    using d ex_table q by auto
  show ?thesis using 1 2 3 4 5 6 by (intro conjI)
qed

subsection \<open>Attempts, timestamps and the error text\<close>

text \<open>
  C4, as the code has it. For a call that returns: \<open>attempts\<close> grows by one exactly on
  entry to \<open>RUNNING\<close>; \<open>started_at\<close> is set on entry to \<open>RUNNING\<close> when it was unset
  and kept otherwise; \<open>completed_at\<close> is set on entry to \<open>COMPLETED\<close> or \<open>FAILED\<close>;
  entry to \<open>RUNNING\<close> clears \<open>error\<close>; on entry to \<open>FAILED\<close> the error is the given
  one when it is not empty, else the job's own error when it is not empty, else
  \<open>Job failed\<close>. Along every sequence of calls the job stays in the table, \<open>attempts\<close>
  never decreases and a set \<open>started_at\<close> is never overwritten.
\<close>

theorem job_bookkeeping:
  assumes r: "get_job_row table jid = Some row"
  shows "(\<forall>now new err job table'.
            transition_job_status table now jid new err = (Inr job, table') \<longrightarrow>
              attempts job =
                (if new = RUNNING \<and> job_status row \<noteq> RUNNING then attempts row + 1
                 else attempts row) \<and>
              started_at job =
                (if new = RUNNING \<and> job_status row \<noteq> RUNNING \<and> started_at row = None
                 then Some now else started_at row) \<and>
              completed_at job =
                (if (new = COMPLETED \<or> new = FAILED) \<and> job_status row \<noteq> new
                 then Some now else completed_at row) \<and>
              (new = RUNNING \<and> job_status row \<noteq> RUNNING \<longrightarrow> error job = None) \<and>
              (new = FAILED \<and> job_status row \<noteq> FAILED \<longrightarrow>
                 error job =
                   (if err \<noteq> None \<and> err \<noteq> Some [] then err
                    else if error row \<noteq> None \<and> error row \<noteq> Some [] then error row
                    else Some ''Job failed''))) \<and>
         (\<forall>calls. \<exists>job.
            get_job_row (run_transitions table jid calls) jid = Some job \<and>
            attempts row \<le> attempts job \<and>
            (started_at row \<noteq> None \<longrightarrow> started_at job = started_at row))"
proof (intro conjI allI impI)
  fix calls
  show "\<exists>job. get_job_row (run_transitions table jid calls) jid = Some job \<and>
            attempts row \<le> attempts job \<and>
            (started_at row \<noteq> None \<longrightarrow> started_at job = started_at row)"
    by (rule run_transitions_keeps[OF r])
qed (use transition_step_fields[OF r] in blast)+

lemma example_run:
  "transition_job_status [example_job] 200 ''job-1'' RUNNING None =
     (Inr (example_job\<lparr>job_status := RUNNING, job_updated_at := 200, started_at := Some 200,
                        attempts := 1, error := None\<rparr>),
      [example_job\<lparr>job_status := RUNNING, job_updated_at := 200, started_at := Some 200,
                   attempts := 1, error := None\<rparr>])"
  by (simp add: transition_job_status_def get_job_row_def flush_job_row_def example_job_def
        to_job_def Let_def)

text \<open>The start of the example job: one attempt, started at the clock reading, no error.\<close>

theorem job_bookkeeping_witness:
  "get_job_row [example_job] ''job-1'' = Some example_job \<and>
   attempts (projr (fst (transition_job_status [example_job] 200 ''job-1'' RUNNING None)))
     = attempts example_job + 1 \<and>
   started_at (projr (fst (transition_job_status [example_job] 200 ''job-1'' RUNNING None)))
     = Some 200 \<and>
   error (projr (fst (transition_job_status [example_job] 200 ''job-1'' RUNNING None))) = None"
proof -
  have q: "job_status example_job = QUEUED" "started_at example_job = None"
    by (simp_all add: example_job_def)
  note s = job_bookkeeping [OF ex_table, THEN conjunct1, rule_format, OF example_run]
  show ?thesis using s q ex_table by (simp add: example_run)
qed

text \<open>
  The claim as the specification words it fails: a job that is \<open>RUNNING\<close> and was given
  an error text by a self-transition keeps that text when it fails with no error
  supplied, rather than \<open>Job failed\<close>.
\<close>

theorem failed_error_default_counterexample:
  "map job_status (run_transitions [example_job] ''job-1''
      [(200, RUNNING, None), (300, RUNNING, Some ''boom'')]) = [RUNNING] \<and>
   map job_status (run_transitions [example_job] ''job-1''
      [(200, RUNNING, None), (300, RUNNING, Some ''boom''), (400, FAILED, None)]) = [FAILED] \<and>
   map error (run_transitions [example_job] ''job-1''
      [(200, RUNNING, None), (300, RUNNING, Some ''boom''), (400, FAILED, None)])
     = [Some ''boom''] \<and>
   Some ''boom'' \<noteq> Some ''Job failed''"
  by (simp add: transition_job_status_def get_job_row_def flush_job_row_def example_job_def
        to_job_def str_or_def Let_def)

section \<open>Properties of the node store\<close>

subsection \<open>Lookup, flush and insertion\<close>

lemma get_node_row_id: "get_node_row table nid = Some row \<Longrightarrow> r_node_id row = nid"
  unfolding get_node_row_def by (induction table) (auto split: if_splits)

lemma get_node_row_flush:
  "get_node_row table nid = Some row \<Longrightarrow> r_node_id row' = nid \<Longrightarrow>
   get_node_row (flush_node_row table row') nid = Some row'"
  unfolding get_node_row_def flush_node_row_def by (induction table) (auto split: if_splits)

lemma get_node_row_flush_other:
  "k \<noteq> r_node_id row' \<Longrightarrow>
   get_node_row (flush_node_row table row') k = get_node_row table k"
  unfolding get_node_row_def flush_node_row_def by (induction table) auto

lemma flush_node_row_absent:
  "get_node_row table nid = None \<Longrightarrow> r_node_id row' = nid \<Longrightarrow>
   flush_node_row table row' = table"
  unfolding get_node_row_def flush_node_row_def
  by (induction table) (auto split: if_splits)

lemma flush_node_row_length: "length (flush_node_row table row') = length table"
  by (simp add: flush_node_row_def)

lemma get_node_row_append:
  "get_node_row (table @ [row]) k =
     (case get_node_row table k of
        Some r \<Rightarrow> Some r
      | None \<Rightarrow> (if r_node_id row = k then Some row else None))"
  unfolding get_node_row_def by (induction table) auto

lemma ensure_node_present:
  "get_node_row table nid = Some row \<Longrightarrow> ensure_node self table now nid = (row, table)"
  by (simp add: ensure_node_def)

lemma ensure_node_absent:
  "get_node_row table nid = None \<Longrightarrow>
   ensure_node self table now nid = (fresh_row self now nid, table @ [fresh_row self now nid])"
  by (simp add: ensure_node_def fresh_row_def Let_def)

lemma flush_after_insert:
  assumes "get_node_row table nid = None" "r_node_id row = nid" "r_node_id row' = nid"
  shows "flush_node_row (table @ [row]) row' = table @ [row']"
  using flush_node_row_absent[OF assms(1) assms(3)] assms(2,3)
  by (simp add: flush_node_row_def)

lemma update_node_metrics_present:
  assumes "get_node_row table nid = Some row"
  shows "update_node_metrics self table now nid m =
     (to_node (row\<lparr>metrics_json := m, r_status := ONLINE, r_last_seen := heartbeat_ts m,
                    r_updated_at := now\<rparr>),
      flush_node_row table (row\<lparr>metrics_json := m, r_status := ONLINE,
                                 r_last_seen := heartbeat_ts m, r_updated_at := now\<rparr>))"
  by (simp add: update_node_metrics_def ensure_node_present[OF assms] Let_def)

lemma update_node_metrics_absent:
  assumes "get_node_row table nid = None"
  shows "update_node_metrics self table now nid m =
     (to_node ((fresh_row self now nid)\<lparr>metrics_json := m, r_status := ONLINE,
                    r_last_seen := heartbeat_ts m, r_updated_at := now\<rparr>),
      table @ [(fresh_row self now nid)\<lparr>metrics_json := m, r_status := ONLINE,
                    r_last_seen := heartbeat_ts m, r_updated_at := now\<rparr>])"
proof -
  have i: "r_node_id (fresh_row self now nid) = nid" by (simp add: fresh_row_def)
  have j: "r_node_id ((fresh_row self now nid)\<lparr>metrics_json := m, r_status := ONLINE,
                    r_last_seen := heartbeat_ts m, r_updated_at := now\<rparr>) = nid"
    by (simp add: fresh_row_def)
  show ?thesis
    by (simp add: update_node_metrics_def ensure_node_absent[OF assms] Let_def
          flush_after_insert[OF assms i j])
qed

lemma update_node_policy_present:
  assumes "get_node_row table nid = Some row"
  shows "update_node_policy self table now nid p =
     (to_node (row\<lparr>policy_json := p, r_updated_at := now\<rparr>),
      flush_node_row table (row\<lparr>policy_json := p, r_updated_at := now\<rparr>))"
  by (simp add: update_node_policy_def ensure_node_present[OF assms] Let_def)

lemma update_node_policy_absent:
  assumes "get_node_row table nid = None"
  shows "update_node_policy self table now nid p =
     (to_node ((fresh_row self now nid)\<lparr>policy_json := p, r_updated_at := now\<rparr>),
      table @ [(fresh_row self now nid)\<lparr>policy_json := p, r_updated_at := now\<rparr>])"
proof -
  have i: "r_node_id (fresh_row self now nid) = nid" by (simp add: fresh_row_def)
  have j: "r_node_id ((fresh_row self now nid)\<lparr>policy_json := p, r_updated_at := now\<rparr>) = nid"
    by (simp add: fresh_row_def)
  show ?thesis
    by (simp add: update_node_policy_def ensure_node_absent[OF assms] Let_def
          flush_after_insert[OF assms i j])
qed

lemma to_node_fields:
  "metrics (to_node r) = metrics_json r" "status (to_node r) = r_status r"
  "last_seen (to_node r) = r_last_seen r" "updated_at (to_node r) = r_updated_at r"
  "created_at (to_node r) = r_created_at r" "policy (to_node r) = policy_json r"
  "capabilities (to_node r) = capabilities_json r"
  "node_id (identity (to_node r)) = r_node_id r"
  "display_name (identity (to_node r)) = r_display_name r"
  "ip (identity (to_node r)) = r_ip r" "port (identity (to_node r)) = r_port r"
  by (simp_all add: to_node_def)

subsection \<open>Heartbeats\<close>

text \<open>
  C6. For every node id and metrics payload, \<open>update_node_metrics\<close> returns the node as
  it is stored afterwards, with the payload as its metrics, status \<open>ONLINE\<close>,
  \<open>last_seen\<close> equal to the payload's \<open>heartbeat_ts\<close> and \<open>updated_at\<close> refreshed.
  When a row with the id exists, its identity, capabilities, policy and \<open>created_at\<close>
  stay and no row is added; when none exists, \<open>_ensure_node\<close> inserts the row with the
  default capabilities, metrics and policy, named after the id, and the update is made on
  it. No other row changes.
\<close>

theorem update_node_metrics_heartbeat:
  assumes u: "update_node_metrics self table now nid m = (node, table')"
  shows "get_node table' nid = Some node \<and>
         metrics node = m \<and> status node = ONLINE \<and> last_seen node = heartbeat_ts m \<and>
         updated_at node = now \<and> node_id (identity node) = nid \<and>
         (case get_node_row table nid of
            Some row \<Rightarrow>
              length table' = length table \<and>
              identity node = identity (to_node row) \<and>
              capabilities node = capabilities_json row \<and>
              policy node = policy_json row \<and>
              created_at node = r_created_at row
          | None \<Rightarrow>
              fst (ensure_node self table now nid) = fresh_row self now nid \<and>
              table' = table @ [(fresh_row self now nid)
                                  \<lparr>metrics_json := m, r_status := ONLINE,
                                   r_last_seen := heartbeat_ts m, r_updated_at := now\<rparr>] \<and>
              display_name (identity node) = nid \<and>
              capabilities node = default_capabilities self \<and>
              policy node = default_policy self \<and>
              created_at node = now) \<and>
         (\<forall>k. k \<noteq> nid \<longrightarrow> get_node_row table' k = get_node_row table k)"
proof (cases "get_node_row table nid")
  case None
  let ?r = "(fresh_row self now nid)\<lparr>metrics_json := m, r_status := ONLINE,
              r_last_seen := heartbeat_ts m, r_updated_at := now\<rparr>"
  from u update_node_metrics_absent[OF None, of self now m]
  have n: "node = to_node ?r" and t: "table' = table @ [?r]" by simp_all
  have i: "r_node_id ?r = nid" by (simp add: fresh_row_def)
  have g: "get_node table' nid = Some node"
    unfolding get_node_def t n by (simp add: get_node_row_append None i)
  have o: "\<forall>k. k \<noteq> nid \<longrightarrow> get_node_row table' k = get_node_row table k"
    unfolding t by (auto simp: get_node_row_append i split: option.splits)
  show ?thesis
    using g o None t
    by (simp add: n to_node_fields ensure_node_absent[OF None] fresh_row_def)
next
  case (Some row)
  let ?r = "row\<lparr>metrics_json := m, r_status := ONLINE,
              r_last_seen := heartbeat_ts m, r_updated_at := now\<rparr>"
  from u update_node_metrics_present[OF Some, of self now m]
  have n: "node = to_node ?r" and t: "table' = flush_node_row table ?r" by simp_all
  have i: "r_node_id ?r = nid" using get_node_row_id[OF Some] by simp
  have g: "get_node table' nid = Some node"
    unfolding get_node_def t n by (simp add: get_node_row_flush[OF Some i])
  have o: "\<forall>k. k \<noteq> nid \<longrightarrow> get_node_row table' k = get_node_row table k"
    unfolding t using i by (auto simp: get_node_row_flush_other)
  show ?thesis
    using g o Some i
    by (simp add: n t to_node_fields flush_node_row_length to_node_def)
qed

text \<open>A first heartbeat for \<open>node-1\<close> on the empty table.\<close>

theorem update_node_metrics_heartbeat_witness:
  "update_node_metrics example_defaults [] 9000000 ''node-1'' example_metrics =
     (to_node ((fresh_row example_defaults 9000000 ''node-1'')
                 \<lparr>metrics_json := example_metrics, r_status := ONLINE,
                  r_last_seen := 5000000, r_updated_at := 9000000\<rparr>),
      [(fresh_row example_defaults 9000000 ''node-1'')
                 \<lparr>metrics_json := example_metrics, r_status := ONLINE,
                  r_last_seen := 5000000, r_updated_at := 9000000\<rparr>]) \<and>
   status (fst (update_node_metrics example_defaults [] 9000000 ''node-1'' example_metrics))
     = ONLINE \<and>
   last_seen (fst (update_node_metrics example_defaults [] 9000000 ''node-1'' example_metrics))
     = heartbeat_ts example_metrics"
proof -
  have h: "heartbeat_ts example_metrics = 5000000" by (simp add: example_metrics_def)
  have e: "get_node_row [] ''node-1'' = None" by (simp add: get_node_row_def)
  obtain node table' where
    u: "update_node_metrics example_defaults [] 9000000 ''node-1'' example_metrics = (node, table')"
    by (cases "update_node_metrics example_defaults [] 9000000 ''node-1'' example_metrics")
  note w = update_node_metrics_heartbeat [OF u]
  have g: "get_node table' ''node-1'' = Some node"
    using w by (rule conjunct1)
  have s: "status node = ONLINE"
    using w by (elim conjE)
  have l: "last_seen node = heartbeat_ts example_metrics"
    using w by (elim conjE)
  have t: "table' = [(fresh_row example_defaults 9000000 ''node-1'')
                 \<lparr>metrics_json := example_metrics, r_status := ONLINE,
                  r_last_seen := 5000000, r_updated_at := 9000000\<rparr>]"
    using w by (elim conjE) (simp add: e h)
  have n: "node = to_node ((fresh_row example_defaults 9000000 ''node-1'')
                 \<lparr>metrics_json := example_metrics, r_status := ONLINE,
                  r_last_seen := 5000000, r_updated_at := 9000000\<rparr>)"
    using g unfolding t by (simp add: get_node_def get_node_row_def fresh_row_def)
  show ?thesis
    unfolding u fst_conv using s l by (simp add: n t)
qed

subsection \<open>Policy updates\<close>

text \<open>
  C9, as the code has it. \<open>PUT /v1/nodes/{id}/policy\<close> always answers 200 with the node
  carrying the submitted policy, stored under the id. For an id with no row,
  \<open>update_node_policy\<close> goes through \<open>_ensure_node\<close>, so the row is created (status
  \<open>UNKNOWN\<close>, default capabilities and metrics, address \<open>0.0.0.0:0\<close>) with the submitted
  policy; for an existing row only the policy and \<open>updated_at\<close> change and no row is
  added. The route has no path to 404.
\<close>

theorem put_node_policy_upserts:
  "(\<exists>node table'.
      put_node_policy self table now nid pol = (Response 200 node, table') \<and>
      policy node = pol \<and> updated_at node = now \<and> node_id (identity node) = nid \<and>
      get_node table' nid = Some node) \<and>
   (get_node_row table nid = None \<longrightarrow>
      put_node_policy self table now nid pol =
        (Response 200 (to_node ((fresh_row self now nid)\<lparr>policy_json := pol, r_updated_at := now\<rparr>)),
         table @ [(fresh_row self now nid)\<lparr>policy_json := pol, r_updated_at := now\<rparr>])) \<and>
   (\<forall>row. get_node_row table nid = Some row \<longrightarrow>
      put_node_policy self table now nid pol =
        (Response 200 (to_node (row\<lparr>policy_json := pol, r_updated_at := now\<rparr>)),
         flush_node_row table (row\<lparr>policy_json := pol, r_updated_at := now\<rparr>)) \<and>
      length (snd (put_node_policy self table now nid pol)) = length table)"
proof (cases "get_node_row table nid")
  case None
  let ?r = "(fresh_row self now nid)\<lparr>policy_json := pol, r_updated_at := now\<rparr>"
  have p: "put_node_policy self table now nid pol = (Response 200 (to_node ?r), table @ [?r])"
    by (simp add: put_node_policy_def update_node_policy_absent[OF None])
  have i: "r_node_id ?r = nid" by (simp add: fresh_row_def)
  have g: "get_node (table @ [?r]) nid = Some (to_node ?r)"
    unfolding get_node_def by (simp add: get_node_row_append None i)
  have "\<exists>node table'.
      put_node_policy self table now nid pol = (Response 200 node, table') \<and>
      policy node = pol \<and> updated_at node = now \<and> node_id (identity node) = nid \<and>
      get_node table' nid = Some node"
    apply (rule exI[of _ "to_node ?r"], rule exI[of _ "table @ [?r]"])
    using p g i by (simp add: to_node_fields)
  with p None show ?thesis by simp
next
  case (Some row)
  let ?r = "row\<lparr>policy_json := pol, r_updated_at := now\<rparr>"
  have p: "put_node_policy self table now nid pol =
             (Response 200 (to_node ?r), flush_node_row table ?r)"
    by (simp add: put_node_policy_def update_node_policy_present[OF Some])
  have i: "r_node_id ?r = nid" using get_node_row_id[OF Some] by simp
  have g: "get_node (flush_node_row table ?r) nid = Some (to_node ?r)"
    unfolding get_node_def by (simp add: get_node_row_flush[OF Some i])
  have "\<exists>node table'.
      put_node_policy self table now nid pol = (Response 200 node, table') \<and>
      policy node = pol \<and> updated_at node = now \<and> node_id (identity node) = nid \<and>
      get_node table' nid = Some node"
    apply (rule exI[of _ "to_node ?r"], rule exI[of _ "flush_node_row table ?r"])
    using p g i by (simp add: to_node_fields)
  with p Some show ?thesis by (simp add: flush_node_row_length)
qed

text \<open>The policy of the example put for the unknown id \<open>ghost\<close> on the empty table.\<close>

theorem put_node_policy_upserts_witness:
  "get_node_row [] ''ghost'' = None \<and>
   put_node_policy example_defaults [] 9000000 ''ghost'' example_policy =
     (Response 200 (to_node ((fresh_row example_defaults 9000000 ''ghost'')
                               \<lparr>policy_json := example_policy, r_updated_at := 9000000\<rparr>)),
      [(fresh_row example_defaults 9000000 ''ghost'')
         \<lparr>policy_json := example_policy, r_updated_at := 9000000\<rparr>])"
proof -
  have e: "get_node_row [] ''ghost'' = None" by (simp add: get_node_row_def)
  from put_node_policy_upserts [of example_defaults "[]" 9000000 "''ghost''" example_policy] e
  show ?thesis by simp
qed

text \<open>
  The claim as the specification words it fails: for the unknown id \<open>ghost\<close> the read
  route answers 404, while the policy route does not, and leaves a row for \<open>ghost\<close>
  in the table.
\<close>

theorem put_node_policy_not_found_counterexample:
  "get_node_detail [] ''ghost'' = HTTPException 404 \<and>
   fst (put_node_policy example_defaults [] 9000000 ''ghost'' example_policy)
     \<noteq> HTTPException 404 \<and>
   length (snd (put_node_policy example_defaults [] 9000000 ''ghost'' example_policy)) = 1 \<and>
   map r_node_id (snd (put_node_policy example_defaults [] 9000000 ''ghost'' example_policy))
     = [''ghost'']"
  by (simp add: get_node_detail_def get_node_def get_node_row_def put_node_policy_def
        update_node_policy_def ensure_node_def flush_node_row_def Let_def)

subsection \<open>Staleness sweep\<close>

text \<open>
  The sweep in closed form, and when it returns: \<^verbatim>\<open>timedelta\<close> and the subtraction
  raise \<open>OverflowError\<close> outside their ranges, before any row is read.
\<close>

lemma stale_loop_eq:
  "stale_loop now cutoff rows acc =
     (map (\<lambda>r. if stale cutoff r then demoted now r else r) rows,
      acc @ map (\<lambda>r. to_node (demoted now r)) (filter (stale cutoff) rows))"
  by (induction rows arbitrary: acc) (simp_all add: stale_def demoted_def Let_def)

lemma sweep_returns:
  assumes "- 999999999 \<le> s div 86400" "s div 86400 \<le> 999999999"
    "datetime_min \<le> now - s * 1000000" "now - s * 1000000 \<le> datetime_max"
  shows "mark_offline_if_stale_nodes table now s =
     Inr (map (\<lambda>r. to_node (demoted now r)) (filter (stale (now - s * 1000000)) table),
          map (\<lambda>r. if stale (now - s * 1000000) r then demoted now r else r) table)"
  using assms
  by (simp add: mark_offline_if_stale_nodes_def timedelta_seconds_def datetime_sub_def
        stale_loop_eq Let_def)

lemma sweep_raises:
  assumes "s div 86400 < - 999999999 \<or> 999999999 < s div 86400 \<or>
    now - s * 1000000 < datetime_min \<or> datetime_max < now - s * 1000000"
  shows "mark_offline_if_stale_nodes table now s = Inl OverflowError"
  using assms
  by (auto simp: mark_offline_if_stale_nodes_def timedelta_seconds_def datetime_sub_def Let_def)

text \<open>
  C5. A sweep at time \<open>now\<close> that returns has set status \<open>OFFLINE\<close> and \<open>updated_at\<close>
  to \<open>now\<close> in exactly the rows with \<open>last_seen\<close> before \<open>now - stale_seconds\<close>
  (in microseconds) whose status was not \<open>OFFLINE\<close>; it returns exactly those rows, as
  changed, in table order; every other row is the row it was; so afterwards every row
  last seen before the cutoff is \<open>OFFLINE\<close>.
\<close>

theorem mark_offline_if_stale_nodes_effect:
  assumes "mark_offline_if_stale_nodes table now s = Inr (updated_nodes, rows)"
  shows "rows = map (\<lambda>r. if r_last_seen r < now - s * 1000000 \<and> r_status r \<noteq> OFFLINE
                         then r\<lparr>r_status := OFFLINE, r_updated_at := now\<rparr> else r) table \<and>
         updated_nodes =
           map (\<lambda>r. to_node (r\<lparr>r_status := OFFLINE, r_updated_at := now\<rparr>))
             (filter (\<lambda>r. r_last_seen r < now - s * 1000000 \<and> r_status r \<noteq> OFFLINE) table) \<and>
         map r_node_id rows = map r_node_id table \<and>
         (\<forall>r \<in> set rows. r_last_seen r < now - s * 1000000 \<longrightarrow> r_status r = OFFLINE) \<and>
         (\<forall>n \<in> set updated_nodes. status n = OFFLINE \<and> updated_at n = now) \<and>
         (\<forall>i < length table.
            \<not> (r_last_seen (table ! i) < now - s * 1000000 \<and> r_status (table ! i) \<noteq> OFFLINE)
            \<longrightarrow> rows ! i = table ! i)"
proof -
  let ?c = "now - s * 1000000"
  have ok: "\<not> (s div 86400 < - 999999999 \<or> 999999999 < s div 86400 \<or>
    ?c < datetime_min \<or> datetime_max < ?c)"
    using assms sweep_raises[of s now table] by auto
  from ok assms sweep_returns[of s now table]
  have u: "updated_nodes = map (\<lambda>r. to_node (demoted now r)) (filter (stale ?c) table)"
    and r: "rows = map (\<lambda>r. if stale ?c r then demoted now r else r) table"
    by simp_all
  have 1: "rows = map (\<lambda>r. if r_last_seen r < ?c \<and> r_status r \<noteq> OFFLINE
                         then r\<lparr>r_status := OFFLINE, r_updated_at := now\<rparr> else r) table"
    unfolding r by (simp add: stale_def demoted_def)
  have 2: "updated_nodes =
           map (\<lambda>r. to_node (r\<lparr>r_status := OFFLINE, r_updated_at := now\<rparr>))
             (filter (\<lambda>r. r_last_seen r < ?c \<and> r_status r \<noteq> OFFLINE) table)"
    unfolding u by (simp add: stale_def[abs_def] demoted_def)
  have 3: "map r_node_id rows = map r_node_id table"
    unfolding r by (simp add: demoted_def)
  have 4: "\<forall>r \<in> set rows. r_last_seen r < ?c \<longrightarrow> r_status r = OFFLINE"
    unfolding r by (auto simp: stale_def demoted_def)
  have 5: "\<forall>n \<in> set updated_nodes. status n = OFFLINE \<and> updated_at n = now"
    unfolding u by (auto simp: demoted_def to_node_def)
  have 6: "\<forall>i < length table.
            \<not> (r_last_seen (table ! i) < ?c \<and> r_status (table ! i) \<noteq> OFFLINE)
            \<longrightarrow> rows ! i = table ! i"
    unfolding 1 by simp
  show ?thesis using 1 2 3 4 5 6 by (intro conjI)
qed

lemma example_sweep:
  "mark_offline_if_stale_nodes [example_row1, example_row2] 120000000 60 =
     Inr ([to_node (example_row1\<lparr>r_status := OFFLINE, r_updated_at := 120000000\<rparr>)],
          [example_row1\<lparr>r_status := OFFLINE, r_updated_at := 120000000\<rparr>, example_row2])"
  by (simp add: mark_offline_if_stale_nodes_def timedelta_seconds_def datetime_sub_def
        datetime_min_def datetime_max_def Let_def example_row1_def example_row2_def)

text \<open>
  A sweep at second 120 with 60 stale seconds: \<open>node-1\<close>, last seen at second 5, is
  demoted and returned; \<open>node-2\<close>, last seen at second 100, is left as it was.
\<close>

theorem mark_offline_if_stale_nodes_effect_witness:
  "mark_offline_if_stale_nodes [example_row1, example_row2] 120000000 60 =
     Inr ([to_node (example_row1\<lparr>r_status := OFFLINE, r_updated_at := 120000000\<rparr>)],
          [example_row1\<lparr>r_status := OFFLINE, r_updated_at := 120000000\<rparr>, example_row2]) \<and>
   map r_node_id [example_row1\<lparr>r_status := OFFLINE, r_updated_at := 120000000\<rparr>, example_row2]
     = map r_node_id [example_row1, example_row2] \<and>
   [example_row1\<lparr>r_status := OFFLINE, r_updated_at := 120000000\<rparr>, example_row2] ! 1
     = [example_row1, example_row2] ! 1"
proof -
  note w = mark_offline_if_stale_nodes_effect [OF example_sweep]
  have a: "map r_node_id [example_row1\<lparr>r_status := OFFLINE, r_updated_at := 120000000\<rparr>,
             example_row2] = map r_node_id [example_row1, example_row2]"
    using w by (elim conjE)
  have b: "[example_row1\<lparr>r_status := OFFLINE, r_updated_at := 120000000\<rparr>, example_row2] ! 1
     = [example_row1, example_row2] ! 1"
    by simp
  show ?thesis using example_sweep a b by (intro conjI)
qed

section \<open>Properties of the metrics history buffer\<close>

subsection \<open>The ring and the slice\<close>

lemma last_n_short: "length xs \<le> n \<Longrightarrow> last_n n xs = xs"
  by (simp add: last_n_def)

lemma length_last_n: "length (last_n n xs) = min n (length xs)"
  by (simp add: last_n_def)

lemma last_n_Nil: "last_n n [] = []"
  by (simp add: last_n_def)

lemma drop_eqI: "a = b \<Longrightarrow> drop a xs = drop b xs"
  by simp

lemma last_n_append_last_n: "last_n n (last_n n xs @ ys) = last_n n (xs @ ys)"
proof (cases "length xs \<le> n")
  case True
  then show ?thesis by (simp add: last_n_short)
next
  case False
  then have l: "length (last_n n xs) = n" by (simp add: length_last_n)
  have "last_n n (last_n n xs @ ys) = drop (length ys) (last_n n xs @ ys)"
    by (simp add: last_n_def[of n "last_n n xs @ ys"] l)
  also have "\<dots> = drop (length ys) (last_n n xs) @ drop (length ys - n) ys"
    by (simp add: l)
  also have "drop (length ys) (last_n n xs) = drop (length xs + length ys - n) xs"
    unfolding last_n_def drop_drop using False by (intro drop_eqI) arith
  also have "drop (length ys - n) ys = drop (length xs + length ys - n - length xs) ys"
    by (intro drop_eqI) arith
  finally show ?thesis by (simp add: last_n_def)
qed

lemma deque_append_last_n:
  "0 \<le> maxlen \<Longrightarrow> length d \<le> nat maxlen \<Longrightarrow>
   deque_append maxlen d x = last_n (nat maxlen) (d @ [x])"
proof (cases "length d = nat maxlen")
  case True
  assume "0 \<le> maxlen"
  with True have "maxlen < int (length (d @ [x]))" by simp
  then have "deque_append maxlen d x = tl (d @ [x])"
    by (simp add: deque_append_def Let_def)
  also have "\<dots> = drop 1 (d @ [x])" by (simp only: One_nat_def drop_Suc drop_0)
  also have "\<dots> = last_n (nat maxlen) (d @ [x])"
    unfolding last_n_def using True by (intro drop_eqI) simp
  finally show ?thesis .
next
  case False
  assume "0 \<le> maxlen" "length d \<le> nat maxlen"
  with False have "\<not> maxlen < int (length (d @ [x]))" by simp
  then have "deque_append maxlen d x = d @ [x]"
    by (simp add: deque_append_def Let_def)
  moreover have "last_n (nat maxlen) (d @ [x]) = d @ [x]"
    using False \<open>length d \<le> nat maxlen\<close> by (intro last_n_short) simp
  ultimately show ?thesis by simp
qed

lemma buffer_append_ok:
  assumes "0 \<le> max_samples b"
  shows "buffer_append b nid m =
     Inr (b\<lparr>samples := (samples b)(nid \<mapsto> deque_append (max_samples b) (stored b nid) m)\<rparr>)"
  using assms by (simp add: buffer_append_def stored_def split: option.splits)

lemma buffer_append_raises:
  "max_samples b < 0 \<Longrightarrow> samples b nid = None \<Longrightarrow> buffer_append b nid m = Inl ValueError"
  by (simp add: buffer_append_def)

lemma append_all_stored:
  assumes "0 \<le> max_samples b" "\<forall>k. length (stored b k) \<le> nat (max_samples b)"
  shows "\<exists>b'. append_all b ops = Inr b' \<and> max_samples b' = max_samples b \<and>
     (\<forall>k. stored b' k = last_n (nat (max_samples b)) (stored b k @ appended_for k ops))"
  using assms
proof (induction ops arbitrary: b)
  case Nil
  then show ?case by (simp add: appended_for_def last_n_short)
next
  case (Cons op ops)
  obtain nid m where op: "op = (nid, m)" by (cases op) auto
  let ?N = "nat (max_samples b)"
  let ?b1 = "b\<lparr>samples := (samples b)(nid \<mapsto> deque_append (max_samples b) (stored b nid) m)\<rparr>"
  have a: "buffer_append b nid m = Inr ?b1"
    by (rule buffer_append_ok[OF Cons.prems(1)])
  have d: "deque_append (max_samples b) (stored b nid) m = last_n ?N (stored b nid @ [m])"
    using Cons.prems by (simp add: deque_append_last_n)
  have s1: "\<And>k. stored ?b1 k = (if k = nid then last_n ?N (stored b nid @ [m]) else stored b k)"
    using d by (simp add: stored_def)
  have m1: "max_samples ?b1 = max_samples b" by simp
  have l1: "\<forall>k. length (stored ?b1 k) \<le> nat (max_samples ?b1)"
    using Cons.prems(2) by (simp add: s1 length_last_n)
  from Cons.IH[of ?b1] Cons.prems(1) l1 m1
  obtain b' where b': "append_all ?b1 ops = Inr b'" "max_samples b' = max_samples b"
    "\<forall>k. stored b' k = last_n ?N (stored ?b1 k @ appended_for k ops)"
    by auto
  have "\<forall>k. stored b' k = last_n ?N (stored b k @ appended_for k (op # ops))"
  proof
    fix k
    show "stored b' k = last_n ?N (stored b k @ appended_for k (op # ops))"
      using b'(3) by (simp add: s1 op appended_for_def last_n_append_last_n)
  qed
  with b' a show ?case by (simp add: op)
qed

lemma append_all_new:
  assumes "0 \<le> n"
  shows "\<exists>b. append_all (new_buffer n) ops = Inr b \<and> max_samples b = n \<and>
     (\<forall>k. stored b k = last_n (nat n) (appended_for k ops))"
  using append_all_stored[of "new_buffer n" ops] assms
  by (simp add: new_buffer_def stored_def)

lemma buffer_get_stored:
  "buffer_get b nid limit =
     (if stored b nid = [] then [] else slice_from (stored b nid) (- limit))"
  by (simp add: buffer_get_def stored_def split: option.splits)

lemma buffer_get_positive:
  "1 \<le> limit \<Longrightarrow> buffer_get b nid limit = last_n (nat limit) (stored b nid)"
  by (auto simp: buffer_get_stored slice_from_def last_n_def Let_def max_def nat_diff_distrib')

lemma buffer_get_zero: "buffer_get b nid 0 = stored b nid"
  by (simp add: buffer_get_stored slice_from_def Let_def)

lemma buffer_get_negative:
  "0 < n \<Longrightarrow> buffer_get b nid (- n) = drop (nat n) (stored b nid)"
  by (auto simp: buffer_get_stored slice_from_def Let_def min_def)

lemma last_n_last_n: "last_n k (last_n n xs) = last_n (min k n) xs"
  unfolding last_n_def drop_drop length_drop by (intro drop_eqI) arith

subsection \<open>Bounded history\<close>

text \<open>
  C7, as the code has it. For a buffer created with \<open>max_samples = n\<close>, \<open>n\<close> not
  negative, every sequence of appends succeeds, and for every node id the buffer then
  holds the last \<open>n\<close> samples appended for that id, oldest first, so at most \<open>n\<close>. For
  a limit of at least 1, \<open>get\<close> returns the last \<open>min limit n\<close> samples appended for
  the id, oldest first: exactly \<open>min limit available\<close> of them. (The route passes a
  limit between 1 and 500.)
\<close>

theorem history_buffer_bounded:
  assumes "0 \<le> n"
  shows "\<exists>b. append_all (new_buffer n) ops = Inr b \<and>
           stored b nid = last_n (nat n) (appended_for nid ops) \<and>
           length (stored b nid) \<le> nat n \<and>
           (\<forall>limit. 1 \<le> limit \<longrightarrow>
              buffer_get b nid limit = last_n (min (nat limit) (nat n)) (appended_for nid ops) \<and>
              length (buffer_get b nid limit) = min (nat limit) (length (stored b nid)))"
proof -
  from append_all_new[OF assms, of ops]
  obtain b where b: "append_all (new_buffer n) ops = Inr b"
    "\<forall>k. stored b k = last_n (nat n) (appended_for k ops)" by blast
  have s: "stored b nid = last_n (nat n) (appended_for nid ops)" using b(2) by simp
  have l: "length (stored b nid) \<le> nat n" by (simp add: s length_last_n)
  have g: "\<forall>limit. 1 \<le> limit \<longrightarrow>
              buffer_get b nid limit = last_n (min (nat limit) (nat n)) (appended_for nid ops) \<and>
              length (buffer_get b nid limit) = min (nat limit) (length (stored b nid))"
  proof (intro allI impI conjI)
    fix limit :: int
    assume p: "1 \<le> limit"
    show "buffer_get b nid limit = last_n (min (nat limit) (nat n)) (appended_for nid ops)"
      by (simp add: buffer_get_positive[OF p] s last_n_last_n)
    show "length (buffer_get b nid limit) = min (nat limit) (length (stored b nid))"
      by (simp add: buffer_get_positive[OF p] length_last_n)
  qed
  show ?thesis
    apply (rule exI[of _ b])
    using b(1) s l g by (intro conjI)
qed

text \<open>
  A ring of two: of the samples 10, 20, 30 for \<open>node-1\<close> the last two are held, and a
  limit of 1 gives the newest.
\<close>

theorem history_buffer_bounded_witness:
  "(0 :: int) \<le> 2 \<and>
   stored (projr (append_all (new_buffer 2) [(''node-1'', 10 :: nat), (''node-2'', 7),
             (''node-1'', 20), (''node-1'', 30)])) ''node-1'' = [20, 30] \<and>
   buffer_get (projr (append_all (new_buffer 2) [(''node-1'', 10 :: nat), (''node-2'', 7),
             (''node-1'', 20), (''node-1'', 30)])) ''node-1'' 1 = [30]"
proof -
  let ?ops = "[(''node-1'', 10 :: nat), (''node-2'', 7), (''node-1'', 20), (''node-1'', 30)]"
  have a: "appended_for ''node-1'' ?ops = [10, 20, 30]"
    by (simp add: appended_for_def)
  have z: "(0 :: int) \<le> 2" by simp
  from history_buffer_bounded [OF z, of ?ops "''node-1''"]
  obtain b where b: "append_all (new_buffer 2) ?ops = Inr b"
    "stored b ''node-1'' = last_n (nat 2) (appended_for ''node-1'' ?ops)"
    "\<forall>limit. 1 \<le> limit \<longrightarrow>
       buffer_get b ''node-1'' limit =
         last_n (min (nat limit) (nat 2)) (appended_for ''node-1'' ?ops) \<and>
       length (buffer_get b ''node-1'' limit) = min (nat limit) (length (stored b ''node-1''))"
    by blast
  have s: "stored b ''node-1'' = [20, 30]"
    using b(2) by (simp add: a last_n_def)
  have g: "buffer_get b ''node-1'' 1 = [30]"
    using b(3)[rule_format, of 1] by (simp add: a last_n_def)
  show ?thesis unfolding b(1) sum.sel using s g by (intro conjI) simp_all
qed

text \<open>
  The bound as the specification words it, for any limit, fails at \<open>limit = 0\<close>: with
  two samples held, \<open>get\<close> returns both, more than \<open>min 0 2\<close>.
\<close>

theorem history_limit_zero_counterexample:
  "buffer_get (projr (append_all (new_buffer 256) [(''node-1'', 10 :: nat), (''node-1'', 20)]))
     ''node-1'' 0 = [10, 20] \<and>
   \<not> int (length (buffer_get
        (projr (append_all (new_buffer 256) [(''node-1'', 10 :: nat), (''node-1'', 20)]))
        ''node-1'' 0)) \<le> min 0 2"
  by (simp add: new_buffer_def buffer_append_def deque_append_def buffer_get_def
        slice_from_def Let_def)

subsection \<open>Limits of zero and below\<close>

text \<open>
  C10. For every buffer and node id, \<open>get\<close> with limit 0 returns every sample held for
  the id (the slice from \<open>-0\<close> is the whole list); with a negative limit \<open>-n\<close> it
  returns all but the oldest \<open>n\<close>; the bound of at most \<open>limit\<close> items holds for every
  limit of at least 1, and fails for limit 0 whenever a sample is held.
\<close>

theorem history_get_nonpositive_limit:
  "buffer_get b nid 0 = stored b nid \<and>
   (\<forall>n. 0 < n \<longrightarrow> buffer_get b nid (- n) = drop (nat n) (stored b nid)) \<and>
   (\<forall>limit. 1 \<le> limit \<longrightarrow> length (buffer_get b nid limit) \<le> nat limit) \<and>
   (stored b nid \<noteq> [] \<longrightarrow> \<not> length (buffer_get b nid 0) \<le> 0)"
proof (intro conjI allI impI)
  show "buffer_get b nid 0 = stored b nid" by (rule buffer_get_zero)
next
  fix n :: int
  assume "0 < n"
  then show "buffer_get b nid (- n) = drop (nat n) (stored b nid)"
    by (rule buffer_get_negative)
next
  fix limit :: int
  assume "1 \<le> limit"
  then show "length (buffer_get b nid limit) \<le> nat limit"
    by (simp add: buffer_get_positive length_last_n)
next
  assume "stored b nid \<noteq> []"
  then show "\<not> length (buffer_get b nid 0) \<le> 0"
    by (simp add: buffer_get_zero)
qed

text \<open>On the example buffer with the samples 10, 20, 30.\<close>

theorem history_get_nonpositive_limit_witness:
  "buffer_get example_buffer ''node-1'' 0 = [10, 20, 30] \<and>
   buffer_get example_buffer ''node-1'' (- 1) = [20, 30] \<and>
   length (buffer_get example_buffer ''node-1'' 2) \<le> nat 2 \<and>
   \<not> length (buffer_get example_buffer ''node-1'' 0) \<le> 0"
proof -
  have s: "stored example_buffer ''node-1'' = [10, 20, 30]"
    by (simp add: stored_def example_buffer_def)
  note w = history_get_nonpositive_limit [of example_buffer "''node-1''"]
  have 1: "buffer_get example_buffer ''node-1'' 0 = [10, 20, 30]"
    using w s by simp
  have 2: "buffer_get example_buffer ''node-1'' (- 1) = [20, 30]"
    using w[THEN conjunct2, THEN conjunct1, rule_format, of 1] s by simp
  have 3: "length (buffer_get example_buffer ''node-1'' 2) \<le> nat 2"
    using w[THEN conjunct2, THEN conjunct2, THEN conjunct1, rule_format, of 2] by simp
  have 4: "\<not> length (buffer_get example_buffer ''node-1'' 0) \<le> 0"
    using 1 by simp
  show ?thesis using 1 2 3 4 by (intro conjI)
qed

section \<open>Properties of the event bus\<close>

subsection \<open>Delivery to one queue\<close>

lemma kept_append_kept: "kept c (kept c xs @ ys) = kept c (xs @ ys)"
  by (simp add: kept_def last_n_append_last_n)

lemma deliver_ok:
  assumes "queue_ok q"
  shows "deliver q e = Inr (served q e)"
proof (cases "full q")
  case True
  then have m: "0 < maxsize q" "maxsize q \<le> int (length (pending q))"
    by (simp_all add: full_def split: if_splits)
  with assms have l: "int (length (pending q)) = maxsize q"
    by (simp add: queue_ok_def)
  with m obtain x xs where p: "pending q = x # xs" by (cases "pending q") auto
  have g: "get_nowait q = Inr (x, q\<lparr>pending := xs\<rparr>)"
    by (simp add: get_nowait_def p)
  have nf: "\<not> full (q\<lparr>pending := xs\<rparr>)"
    using l p m by (simp add: full_def)
  show ?thesis
    using True g nf p by (simp add: deliver_def put_nowait_def served_def Let_def)
next
  case False
  then show ?thesis by (simp add: deliver_def put_nowait_def served_def Let_def)
qed

lemma served_pending:
  assumes "queue_ok q"
  shows "pending (served q e) = kept (maxsize q) (pending q @ [e])"
proof (cases "full q")
  case True
  then have m: "0 < maxsize q" "maxsize q \<le> int (length (pending q))"
    by (simp_all add: full_def split: if_splits)
  with assms have l: "length (pending q) = nat (maxsize q)"
    by (simp add: queue_ok_def)
  have "last_n (nat (maxsize q)) (pending q @ [e]) = drop 1 (pending q @ [e])"
    unfolding last_n_def using l by (intro drop_eqI) simp
  also have "\<dots> = tl (pending q @ [e])" by (simp only: One_nat_def drop_Suc drop_0)
  also have "\<dots> = tl (pending q) @ [e]" using l m by (cases "pending q") auto
  finally show ?thesis using True m by (simp add: served_def kept_def)
next
  case False
  then have "maxsize q \<le> 0 \<or> int (length (pending q)) < maxsize q"
    by (simp add: full_def split: if_splits)
  then have "kept (maxsize q) (pending q @ [e]) = pending q @ [e]"
    by (auto simp: kept_def intro!: last_n_short)
  then show ?thesis using False by (simp add: served_def)
qed

lemma served_maxsize: "maxsize (served q e) = maxsize q"
  by (simp add: served_def)

lemma served_ok: "queue_ok q \<Longrightarrow> queue_ok (served q e)"
  unfolding queue_ok_def[of "served q e"] served_maxsize
  by (auto simp: served_pending kept_def length_last_n)

lemma publish_loop_ok:
  "list_all (\<lambda>p. queue_ok (snd p)) subs \<Longrightarrow>
   publish_loop subs e = (None, map (\<lambda>p. (fst p, served (snd p) e)) subs)"
  by (induction subs) (auto simp: deliver_ok)

lemma bus_ok_queues: "bus_ok b \<Longrightarrow> list_all (\<lambda>p. queue_ok (snd p)) (subscribers b)"
  by (simp add: bus_ok_def list_all_iff)

lemma publish_ok:
  assumes "bus_ok b"
  shows "publish b e =
     (None, b\<lparr>subscribers := map (\<lambda>p. (fst p, served (snd p) e)) (subscribers b)\<rparr>)"
  by (simp add: publish_def publish_loop_ok[OF bus_ok_queues[OF assms]])

lemma publish_keeps_ok:
  assumes "bus_ok b"
  shows "bus_ok (b\<lparr>subscribers := map (\<lambda>p. (fst p, served (snd p) e)) (subscribers b)\<rparr>)"
  using assms by (auto simp: bus_ok_def list_all_iff served_ok comp_def)

lemma publish_all_ok:
  assumes "bus_ok b"
  shows "publish_all b es =
     (None, b\<lparr>subscribers :=
        map (\<lambda>p. (fst p, (snd p)\<lparr>pending := kept (maxsize (snd p)) (pending (snd p) @ es)\<rparr>))
          (subscribers b)\<rparr>)"
  using assms
proof (induction es arbitrary: b)
  case Nil
  have "\<And>p. p \<in> set (subscribers b) \<Longrightarrow>
      (fst p, (snd p)\<lparr>pending := kept (maxsize (snd p)) (pending (snd p))\<rparr>) = p"
  proof -
    fix p
    assume "p \<in> set (subscribers b)"
    with Nil have "queue_ok (snd p)" by (auto simp: bus_ok_def list_all_iff)
    then have "kept (maxsize (snd p)) (pending (snd p)) = pending (snd p)"
      by (auto simp: kept_def queue_ok_def intro!: last_n_short)
    then show "(fst p, (snd p)\<lparr>pending := kept (maxsize (snd p)) (pending (snd p))\<rparr>) = p"
      by (cases p) simp
  qed
  then have "map (\<lambda>p. (fst p, (snd p)\<lparr>pending := kept (maxsize (snd p)) (pending (snd p))\<rparr>))
      (subscribers b) = subscribers b"
    by (simp add: map_idI)
  then show ?case by simp
next
  case (Cons e es)
  let ?b1 = "b\<lparr>subscribers := map (\<lambda>p. (fst p, served (snd p) e)) (subscribers b)\<rparr>"
  have ok1: "bus_ok ?b1" by (rule publish_keeps_ok[OF Cons.prems])
  have q: "\<And>p. p \<in> set (subscribers b) \<Longrightarrow>
      kept (maxsize (snd p)) (pending (served (snd p) e) @ es)
        = kept (maxsize (snd p)) (pending (snd p) @ e # es)"
  proof -
    fix p
    assume "p \<in> set (subscribers b)"
    with Cons.prems have "queue_ok (snd p)" by (auto simp: bus_ok_def list_all_iff)
    then show "kept (maxsize (snd p)) (pending (served (snd p) e) @ es)
        = kept (maxsize (snd p)) (pending (snd p) @ e # es)"
      by (simp add: served_pending kept_append_kept)
  qed
  have u: "\<And>q X. (served q e)\<lparr>pending := X\<rparr> = q\<lparr>pending := X\<rparr>"
    by (simp add: served_def)
  have "map (\<lambda>p. (fst p, (snd p)\<lparr>pending := kept (maxsize (snd p)) (pending (snd p) @ es)\<rparr>))
          (map (\<lambda>p. (fst p, served (snd p) e)) (subscribers b)) =
        map (\<lambda>p. (fst p, (snd p)\<lparr>pending := kept (maxsize (snd p)) (pending (snd p) @ e # es)\<rparr>))
          (subscribers b)"
    unfolding map_map comp_def fst_conv snd_conv served_maxsize u
    by (rule map_cong[OF refl]) (simp add: q)
  then show ?case
    by (simp add: publish_ok[OF Cons.prems] Cons.IH[OF ok1])
qed

subsection \<open>Subscription\<close>

lemma map_of_map_snd:
  "map_of (map (\<lambda>p. (fst p, f (snd p))) subs) r = map_option f (map_of subs r)"
  by (induction subs) auto

lemma subscribe_eq:
  "subscribe b =
     (next_ref b,
      b\<lparr>subscribers := subscribers b @ [(next_ref b, \<lparr>maxsize = queue_size b, pending = []\<rparr>)],
        next_ref := Suc (next_ref b)\<rparr>)"
  by (simp add: subscribe_def Let_def)

lemma subscribe_ok:
  assumes "bus_ok b"
  shows "bus_ok (snd (subscribe b))"
  using assms
  by (auto simp: subscribe_eq bus_ok_def list_all_iff queue_ok_def)

lemma subscribe_lookup:
  assumes "bus_ok b"
  shows "map_of (subscribers (snd (subscribe b))) (fst (subscribe b)) =
     Some \<lparr>maxsize = queue_size b, pending = []\<rparr>"
proof -
  have "next_ref b \<notin> fst ` set (subscribers b)"
    using assms by (auto simp: bus_ok_def list_all_iff)
  then have "map_of (subscribers b) (next_ref b) = None"
    by (simp add: map_of_eq_None_iff)
  then show ?thesis by (simp add: subscribe_eq map_add_def)
qed

lemma new_bus_ok: "bus_ok (new_bus n)"
  by (simp add: bus_ok_def new_bus_def)

subsection \<open>Drop-oldest delivery\<close>

text \<open>
  C8, as the code has it. On a bus whose queues respect their bounds, with nothing
  consumed meanwhile: every publish returns without an exception and leaves the
  subscribers as they were, each queue with the new event last and, when it was full,
  without its oldest pending event. A subscriber holding \<open>pending\<close> when a sequence
  \<open>es\<close> of publishes starts ends with the last \<open>capacity\<close> events of
  \<open>pending @ es\<close>, all of them when the queue size is zero or less (no bound). So for
  every subscriber whose queue is empty when the sequence starts, as it is right after
  \<open>subscribe\<close>, the pending events are the last \<open>min N capacity\<close> of \<open>es\<close> in
  publish order.
\<close>

theorem event_bus_drop_oldest:
  assumes "bus_ok b"
  shows "(\<forall>e. \<exists>b'. publish b e = (None, b') \<and>
            map fst (subscribers b') = map fst (subscribers b) \<and>
            (\<forall>r q. map_of (subscribers b) r = Some q \<longrightarrow>
               map_of (subscribers b') r =
                 Some (q\<lparr>pending := (if full q then tl (pending q) else pending q) @ [e]\<rparr>))) \<and>
         (\<forall>es. \<exists>b' ps. publish_all (snd (subscribe b)) es = (None, b') \<and>
            pending_of b' (fst (subscribe b)) = Some ps \<and>
            ps = (if queue_size b \<le> 0 then es
                  else drop (length es - nat (queue_size b)) es) \<and>
            (0 < queue_size b \<longrightarrow> length ps = min (length es) (nat (queue_size b)))) \<and>
         (\<forall>r q es. map_of (subscribers b) r = Some q \<longrightarrow>
            (\<exists>b'. publish_all b es = (None, b') \<and>
               pending_of b' r =
                 Some (if maxsize q \<le> 0 then pending q @ es
                       else drop (length (pending q @ es) - nat (maxsize q)) (pending q @ es)))) \<and>
         (\<forall>r q es. map_of (subscribers b) r = Some q \<longrightarrow> pending q = [] \<longrightarrow>
            (\<exists>b' ps. publish_all b es = (None, b') \<and>
               pending_of b' r = Some ps \<and>
               ps = (if maxsize q \<le> 0 then es
                     else drop (length es - nat (maxsize q)) es) \<and>
               (0 < maxsize q \<longrightarrow> length ps = min (length es) (nat (maxsize q)))))"
proof (intro conjI allI impI)
  fix e
  let ?b' = "b\<lparr>subscribers := map (\<lambda>p. (fst p, served (snd p) e)) (subscribers b)\<rparr>"
  have "publish b e = (None, ?b')" by (rule publish_ok[OF assms])
  moreover have "map fst (subscribers ?b') = map fst (subscribers b)"
    by (simp add: comp_def)
  moreover have "\<forall>r q. map_of (subscribers b) r = Some q \<longrightarrow>
               map_of (subscribers ?b') r =
                 Some (q\<lparr>pending := (if full q then tl (pending q) else pending q) @ [e]\<rparr>)"
    unfolding served_def[symmetric]
    by (simp add: map_of_map_snd[where f = "\<lambda>q. served q e"])
  ultimately show "\<exists>b'. publish b e = (None, b') \<and>
            map fst (subscribers b') = map fst (subscribers b) \<and>
            (\<forall>r q. map_of (subscribers b) r = Some q \<longrightarrow>
               map_of (subscribers b') r =
                 Some (q\<lparr>pending := (if full q then tl (pending q) else pending q) @ [e]\<rparr>))"
    by blast
next
  fix es
  let ?b1 = "snd (subscribe b)"
  let ?r = "fst (subscribe b)"
  let ?f = "\<lambda>q :: 'a Queue. q\<lparr>pending := kept (maxsize q) (pending q @ es)\<rparr>"
  let ?b' = "?b1\<lparr>subscribers := map (\<lambda>p. (fst p, ?f (snd p))) (subscribers ?b1)\<rparr>"
  let ?ps = "if queue_size b \<le> 0 then es else drop (length es - nat (queue_size b)) es"
  have p: "publish_all ?b1 es = (None, ?b')"
    by (rule publish_all_ok[OF subscribe_ok[OF assms]])
  have "pending_of ?b' ?r = Some (kept (queue_size b) es)"
    by (simp add: pending_of_def map_of_map_snd[where f = ?f] subscribe_lookup[OF assms])
  then have g: "pending_of ?b' ?r = Some ?ps"
    by (simp add: kept_def last_n_def)
  have l: "0 < queue_size b \<longrightarrow> length ?ps = min (length es) (nat (queue_size b))"
    by auto
  show "\<exists>b' ps. publish_all (snd (subscribe b)) es = (None, b') \<and>
            pending_of b' (fst (subscribe b)) = Some ps \<and>
            ps = (if queue_size b \<le> 0 then es
                  else drop (length es - nat (queue_size b)) es) \<and>
            (0 < queue_size b \<longrightarrow> length ps = min (length es) (nat (queue_size b)))"
    apply (rule exI[of _ ?b'], rule exI[of _ ?ps])
    using p g l by (intro conjI refl)
next
  fix r q es
  assume m: "map_of (subscribers b) r = Some q"
  let ?f = "\<lambda>q :: 'a Queue. q\<lparr>pending := kept (maxsize q) (pending q @ es)\<rparr>"
  let ?b' = "b\<lparr>subscribers := map (\<lambda>p. (fst p, ?f (snd p))) (subscribers b)\<rparr>"
  have p: "publish_all b es = (None, ?b')"
    by (rule publish_all_ok[OF assms])
  have "pending_of ?b' r = Some (kept (maxsize q) (pending q @ es))"
    by (simp add: pending_of_def map_of_map_snd[where f = ?f] m)
  then have "pending_of ?b' r =
                 Some (if maxsize q \<le> 0 then pending q @ es
                       else drop (length (pending q @ es) - nat (maxsize q)) (pending q @ es))"
    by (simp add: kept_def last_n_def)
  with p show "\<exists>b'. publish_all b es = (None, b') \<and>
               pending_of b' r =
                 Some (if maxsize q \<le> 0 then pending q @ es
                       else drop (length (pending q @ es) - nat (maxsize q)) (pending q @ es))"
    by blast
next
  fix r q es
  assume m: "map_of (subscribers b) r = Some q" and e: "pending q = []"
  let ?f = "\<lambda>q :: 'a Queue. q\<lparr>pending := kept (maxsize q) (pending q @ es)\<rparr>"
  let ?b' = "b\<lparr>subscribers := map (\<lambda>p. (fst p, ?f (snd p))) (subscribers b)\<rparr>"
  let ?ps = "if maxsize q \<le> 0 then es else drop (length es - nat (maxsize q)) es"
  have p: "publish_all b es = (None, ?b')"
    by (rule publish_all_ok[OF assms])
  have "pending_of ?b' r = Some (kept (maxsize q) (pending q @ es))"
    by (simp add: pending_of_def map_of_map_snd[where f = ?f] m)
  then have g: "pending_of ?b' r = Some ?ps"
    by (simp add: kept_def last_n_def e)
  have l: "0 < maxsize q \<longrightarrow> length ?ps = min (length es) (nat (maxsize q))"
    by auto
  show "\<exists>b' ps. publish_all b es = (None, b') \<and>
               pending_of b' r = Some ps \<and>
               ps = (if maxsize q \<le> 0 then es
                     else drop (length es - nat (maxsize q)) es) \<and>
               (0 < maxsize q \<longrightarrow> length ps = min (length es) (nat (maxsize q)))"
    apply (rule exI[of _ ?b'], rule exI[of _ ?ps])
    using p g l by (intro conjI refl)
qed

text \<open>
  A subscriber to the example bus (queues of two), its queue empty, after the publishes
  1, 2, 3 holds 2 and 3.
\<close>

theorem event_bus_drop_oldest_witness:
  "bus_ok (snd (subscribe example_bus)) \<and>
   map_of (subscribers (snd (subscribe example_bus))) 0 = Some \<lparr>maxsize = 2, pending = []\<rparr> \<and>
   fst (publish_all (snd (subscribe example_bus)) [1, 2, 3]) = None \<and>
   pending_of (snd (publish_all (snd (subscribe example_bus)) [1, 2, 3])) 0 = Some [2, 3]"
proof -
  have ok: "bus_ok example_bus" by (simp add: example_bus_def new_bus_ok)
  have ok1: "bus_ok (snd (subscribe example_bus))" by (rule subscribe_ok[OF ok])
  have r: "fst (subscribe example_bus) = 0"
    by (simp add: subscribe_def example_bus_def new_bus_def Let_def)
  have z: "queue_size example_bus = 2" by (simp add: example_bus_def new_bus_def)
  have m: "map_of (subscribers (snd (subscribe example_bus))) 0 =
             Some \<lparr>maxsize = 2, pending = ([] :: nat list)\<rparr>"
    using subscribe_lookup[OF ok] r z by simp
  have e: "pending \<lparr>maxsize = 2, pending = ([] :: nat list)\<rparr> = []" by simp
  from event_bus_drop_oldest [OF ok1, THEN conjunct2, THEN conjunct2, THEN conjunct2,
      rule_format, OF m e, of "[1, 2, 3]"]
  obtain b' ps where w: "publish_all (snd (subscribe example_bus)) [1, 2, 3] = (None, b')"
    "pending_of b' 0 = Some ps"
    "ps = (if maxsize \<lparr>maxsize = 2, pending = ([] :: nat list)\<rparr> \<le> 0 then [1, 2, 3]
           else drop (length [1, 2, 3 :: nat]
                        - nat (maxsize \<lparr>maxsize = 2, pending = ([] :: nat list)\<rparr>)) [1, 2, 3])"
    by blast
  have "ps = [2, 3]" using w(3) by simp
  with w(1,2) ok1 m show ?thesis by simp
qed

text \<open>
  The claim as the specification words it, for every subscriber present throughout,
  fails for one that already holds an event: on a bus with queues of three, after
  \<open>subscribe\<close> and the publish of 0, the one publish of 1 leaves 0 and 1 pending, which
  is not a suffix of the sequence 1 and is longer than \<open>min 1 3\<close>.
\<close>

theorem event_bus_pending_counterexample:
  "bus_ok (snd (publish (snd (subscribe (new_bus 3))) (0 :: nat))) \<and>
   pending_of (snd (publish (snd (subscribe (new_bus 3))) (0 :: nat))) 0 = Some [0] \<and>
   fst (publish_all (snd (publish (snd (subscribe (new_bus 3))) (0 :: nat))) [1]) = None \<and>
   pending_of (snd (publish_all (snd (publish (snd (subscribe (new_bus 3))) (0 :: nat))) [1])) 0
     = Some [0, 1] \<and>
   [0, 1] \<noteq> drop (length [1 :: nat] - min (length [1 :: nat]) (nat 3)) [1 :: nat] \<and>
   length [0, 1 :: nat] \<noteq> min (length [1 :: nat]) (nat 3)"
  by (simp add: new_bus_def subscribe_def publish_def deliver_def full_def get_nowait_def
        put_nowait_def pending_of_def bus_ok_def queue_ok_def Let_def)

end
